theory Spec2Isabelle
  imports Complex_Main "HOL-Library.Word" "HOL-Library.Multiset"
begin

section \<open>JavaScript strings\<close>

text \<open>
  A JavaScript string is a sequence of 16-bit code units, and every method used by the
  screens (\<^verbatim>\<open>includes\<close>, \<^verbatim>\<open>replace\<close>, \<^verbatim>\<open>trim\<close>) works on code units.  ASCII literals are
  written with \<open>str\<close>; the currency glyph of the price strings, U+0111, is one code unit.
\<close>

type_synonym jschar = "16 word"
type_synonym jsstring = "jschar list"

definition str :: "string \<Rightarrow> jsstring" where
  "str s = map of_char s"

definition dong :: jschar where
  "dong = 0x111"

fun startsWith :: "jsstring \<Rightarrow> jsstring \<Rightarrow> bool" where
  "startsWith s [] = True"
| "startsWith [] (c # t) = False"
| "startsWith (d # s) (c # t) = (d = c \<and> startsWith s t)"

text \<open>\<^verbatim>\<open>s.includes(t)\<close>: \<open>t\<close> occurs in \<open>s\<close> as a contiguous run of code units.\<close>

fun includesStr :: "jsstring \<Rightarrow> jsstring \<Rightarrow> bool" where
  "includesStr [] t = (t = [])"
| "includesStr (c # s) t = (startsWith (c # s) t \<or> includesStr s t)"

text \<open>
  \<^verbatim>\<open>s.replace(pat, rep)\<close> with a string pattern replaces the first occurrence only
  (\<open>rep\<close> is the empty string at every call site, so no \<^verbatim>\<open>$\<close> pattern is involved).
\<close>

fun replace :: "jsstring \<Rightarrow> jsstring \<Rightarrow> jsstring \<Rightarrow> jsstring" where
  "replace [] pat rep = (if pat = [] then rep else [])"
| "replace (c # s) pat rep =
     (if startsWith (c # s) pat then rep @ drop (length pat) (c # s)
      else c # replace s pat rep)"

text \<open>\<^verbatim>\<open>s.replace(/\./g, '')\<close>: every full stop is deleted.\<close>

definition replaceAllDots :: "jsstring \<Rightarrow> jsstring" where
  "replaceAllDots s = filter (\<lambda>c. c \<noteq> 0x2E) s"

text \<open>
  The code units that \<^verbatim>\<open>trim\<close> and \<^verbatim>\<open>parseFloat\<close> skip: ECMAScript WhiteSpace (TAB, VT, FF,
  ZWNBSP and the Unicode space separators) and LineTerminator (LF, CR, LS, PS).
\<close>

definition isWhiteSpace :: "jschar \<Rightarrow> bool" where
  "isWhiteSpace c =
     (c \<in> set [0x9, 0xA, 0xB, 0xC, 0xD, 0x20, 0xA0, 0x1680, 0x2028, 0x2029, 0x202F,
               0x205F, 0x3000, 0xFEFF]
      \<or> (0x2000 \<le> c \<and> c \<le> 0x200A))"

definition trim :: "jsstring \<Rightarrow> jsstring" where
  "trim s = rev (dropWhile isWhiteSpace (rev (dropWhile isWhiteSpace s)))"

section \<open>JavaScript numbers\<close>

text \<open>
  A Number is an IEEE 754 binary64 value: \<open>NaN\<close>, an infinity, or a finite value, given
  here by the rational it denotes.  Every operation below returns the correctly rounded
  result (round to nearest, ties to even, with gradual underflow and overflow to an
  infinity).  The sign of a zero is not tracked: none of the operations modelled tells the
  two zeros apart.
\<close>

datatype jsnum = NaN | NegInf | Num rat | PosInf

definition roundHalfEven :: "rat \<Rightarrow> int" where
  "roundHalfEven x =
     (let f = \<lfloor>x\<rfloor>; d = x - of_int f
      in if d < 1 / 2 then f else if 1 / 2 < d then f + 1 else if even f then f else f + 1)"

text \<open>The number of binary digits of a positive integer.\<close>

function bitLength :: "int \<Rightarrow> nat" where
  "bitLength n = (if n \<le> 0 then 0 else Suc (bitLength (n div 2)))"
  by pat_completeness auto
termination
  by (relation "measure nat") auto

declare bitLength.simps [simp del]

text \<open>For a positive rational \<open>a\<close>, the integer \<open>e\<close> with \<open>2^e \<le> a < 2^(e + 1)\<close>.\<close>

definition floorLog2 :: "rat \<Rightarrow> int" where
  "floorLog2 a =
     (if 1 \<le> a then int (bitLength \<lfloor>a\<rfloor>) - 1 else - int (bitLength (\<lceil>1 / a\<rceil> - 1)))"

text \<open>
  Rounding a positive magnitude to 53 significant bits: the unit in the last place is
  \<open>2^(e - 52)\<close>, where the exponent \<open>e\<close> is not taken below that of the subnormal range.
\<close>

definition roundMagnitude :: "rat \<Rightarrow> rat" where
  "roundMagnitude a =
     (let e = max (floorLog2 a) (- 1022); u = 2 powi (e - 52)
      in of_int (roundHalfEven (a / u)) * u)"

definition toBinary64 :: "rat \<Rightarrow> jsnum" where
  "toBinary64 x =
     (if x = 0 then Num 0
      else if 2 ^ 1024 \<le> roundMagnitude \<bar>x\<bar> then (if x < 0 then NegInf else PosInf)
      else Num (if x < 0 then - roundMagnitude \<bar>x\<bar> else roundMagnitude \<bar>x\<bar>))"

text \<open>The Number of an integer, as a quantity read from JSON is.\<close>

definition number :: "int \<Rightarrow> jsnum" where
  "number n = toBinary64 (of_int n)"

fun jsneg :: "jsnum \<Rightarrow> jsnum" where
  "jsneg NaN = NaN"
| "jsneg NegInf = PosInf"
| "jsneg (Num a) = Num (- a)"
| "jsneg PosInf = NegInf"

fun jsadd :: "jsnum \<Rightarrow> jsnum \<Rightarrow> jsnum" where
  "jsadd NaN _ = NaN"
| "jsadd _ NaN = NaN"
| "jsadd (Num a) (Num b) = toBinary64 (a + b)"
| "jsadd PosInf NegInf = NaN"
| "jsadd NegInf PosInf = NaN"
| "jsadd PosInf _ = PosInf"
| "jsadd _ PosInf = PosInf"
| "jsadd NegInf _ = NegInf"
| "jsadd _ NegInf = NegInf"

fun jsmul :: "jsnum \<Rightarrow> jsnum \<Rightarrow> jsnum" where
  "jsmul NaN _ = NaN"
| "jsmul _ NaN = NaN"
| "jsmul (Num a) (Num b) = toBinary64 (a * b)"
| "jsmul (Num a) PosInf = (if a = 0 then NaN else if 0 < a then PosInf else NegInf)"
| "jsmul (Num a) NegInf = (if a = 0 then NaN else if 0 < a then NegInf else PosInf)"
| "jsmul PosInf (Num b) = (if b = 0 then NaN else if 0 < b then PosInf else NegInf)"
| "jsmul NegInf (Num b) = (if b = 0 then NaN else if 0 < b then NegInf else PosInf)"
| "jsmul PosInf PosInf = PosInf"
| "jsmul PosInf NegInf = NegInf"
| "jsmul NegInf PosInf = NegInf"
| "jsmul NegInf NegInf = PosInf"

text \<open>The relational operator \<^verbatim>\<open><\<close>: every comparison with \<open>NaN\<close> is false.\<close>

fun jslt :: "jsnum \<Rightarrow> jsnum \<Rightarrow> bool" where
  "jslt NaN _ = False"
| "jslt _ NaN = False"
| "jslt (Num a) (Num b) = (a < b)"
| "jslt _ NegInf = False"
| "jslt NegInf _ = True"
| "jslt PosInf _ = False"
| "jslt _ PosInf = True"

definition isDigit :: "jschar \<Rightarrow> bool" where
  "isDigit c = (0x30 \<le> c \<and> c \<le> 0x39)"

definition digitValue :: "jschar \<Rightarrow> int" where
  "digitValue c = uint (c - 0x30)"

definition decimalValue :: "jsstring \<Rightarrow> int" where
  "decimalValue ds = foldl (\<lambda>acc d. 10 * acc + digitValue d) 0 ds"

text \<open>
  The value of the exponent part (\<^verbatim>\<open>e\<close> or \<^verbatim>\<open>E\<close>, an optional sign, at least one digit)
  that starts the string; 0 when the string does not start with one.
\<close>

definition exponentPart :: "jsstring \<Rightarrow> int" where
  "exponentPart s =
     (case s of
        [] \<Rightarrow> 0
      | c # t \<Rightarrow>
          if c = 0x65 \<or> c = 0x45 then
            (case t of
               [] \<Rightarrow> 0
             | d # u \<Rightarrow>
                 if d = 0x2B then decimalValue (takeWhile isDigit u)
                 else if d = 0x2D then - decimalValue (takeWhile isDigit u)
                 else decimalValue (takeWhile isDigit (d # u)))
          else 0)"

text \<open>
  The longest prefix that is an unsigned decimal literal of \<^verbatim>\<open>parseFloat\<close>: the word
  \<^verbatim>\<open>Infinity\<close>, or digits with an optional fraction and an optional exponent part, with at
  least one digit before the exponent.  Its mathematical value is rounded to binary64 (the
  engines round correctly; ECMAScript leaves them a choice beyond 20 significant digits).
\<close>

definition parseUnsigned :: "jsstring \<Rightarrow> jsnum" where
  "parseUnsigned s =
     (if startsWith s (str ''Infinity'') then PosInf
      else
        let ip = takeWhile isDigit s;
            r1 = dropWhile isDigit s;
            fp = (case r1 of [] \<Rightarrow> [] | c # t \<Rightarrow> if c = 0x2E then takeWhile isDigit t else []);
            r2 = (case r1 of [] \<Rightarrow> [] | c # t \<Rightarrow> if c = 0x2E then dropWhile isDigit t else r1)
        in if ip = [] \<and> fp = [] then NaN
           else toBinary64 (of_int (decimalValue (ip @ fp))
                            * 10 powi (exponentPart r2 - int (length fp))))"

text \<open>
  \<^verbatim>\<open>parseFloat\<close>: leading white space is skipped, an optional sign is read, then the longest
  prefix that is a decimal literal; the rest of the string is ignored, and \<open>NaN\<close> is the
  result when there is no such prefix.
\<close>

definition parseFloat :: "jsstring \<Rightarrow> jsnum" where
  "parseFloat s =
     (case dropWhile isWhiteSpace s of
        [] \<Rightarrow> NaN
      | c # r \<Rightarrow>
          if c = 0x2D then jsneg (parseUnsigned r)
          else if c = 0x2B then parseUnsigned r
          else parseUnsigned (c # r))"

text \<open>Number to string for an integer value, as a template literal renders it.\<close>

definition digitChar :: "nat \<Rightarrow> jschar" where
  "digitChar d = 0x30 + of_nat d"

fun digitsOf :: "nat \<Rightarrow> jsstring" where
  "digitsOf n = (if n < 10 then [digitChar n] else digitsOf (n div 10) @ [digitChar (n mod 10)])"

declare digitsOf.simps [simp del]

definition intToString :: "int \<Rightarrow> jsstring" where
  "intToString n = (if n < 0 then 0x2D # digitsOf (nat (- n)) else digitsOf (nat n))"

text \<open>
  \<^verbatim>\<open>toLocaleString()\<close> is called without a locale argument, so it formats for the default
  locale of the device, with the default options of \<^verbatim>\<open>Intl.NumberFormat\<close>: at most three
  fraction digits, rounded half away from zero, and grouping.  Two locales are modelled,
  after their CLDR data: both group the integer digits in threes from the right; \<open>vi_VN\<close>
  groups with a full stop and writes a decimal comma, \<open>en_US\<close> groups with a comma and
  writes a decimal point.
\<close>

datatype cldrLocale = vi_VN | en_US

fun groupSeparator :: "cldrLocale \<Rightarrow> jschar" where
  "groupSeparator vi_VN = 0x2E"
| "groupSeparator en_US = 0x2C"

fun decimalSeparator :: "cldrLocale \<Rightarrow> jschar" where
  "decimalSeparator vi_VN = 0x2C"
| "decimalSeparator en_US = 0x2E"

text \<open>Grouping works on the digits in reverse order, least significant first.\<close>

fun groupReversed :: "jschar \<Rightarrow> jsstring \<Rightarrow> jsstring" where
  "groupReversed sep (a # b # c # d # r) = a # b # c # sep # groupReversed sep (d # r)"
| "groupReversed sep ds = ds"

definition groupedDigits :: "cldrLocale \<Rightarrow> nat \<Rightarrow> jsstring" where
  "groupedDigits loc n = rev (groupReversed (groupSeparator loc) (rev (digitsOf n)))"

text \<open>The fraction of a value, given in thousandths: nothing when it is 0.\<close>

definition fractionDigits :: "cldrLocale \<Rightarrow> nat \<Rightarrow> jsstring" where
  "fractionDigits loc f =
     (if f = 0 then []
      else decimalSeparator loc
           # rev (dropWhile (\<lambda>c. c = 0x30)
                    (rev [digitChar (f div 100), digitChar (f div 10 mod 10),
                          digitChar (f mod 10)])))"

fun toLocaleString :: "cldrLocale \<Rightarrow> jsnum \<Rightarrow> jsstring" where
  "toLocaleString loc NaN = str ''NaN''"
| "toLocaleString loc PosInf = [0x221E]"
| "toLocaleString loc NegInf = [0x2D, 0x221E]"
| "toLocaleString loc (Num x) =
     (let m = nat \<lfloor>\<bar>x\<bar> * 1000 + 1 / 2\<rfloor>;
          body = groupedDigits loc (m div 1000) @ fractionDigits loc (m mod 1000)
      in if x < 0 then 0x2D # body else body)"

declare toLocaleString.simps [simp del]

section \<open>Cart lines and the pure cart functions\<close>

datatype category = plants | pots | accessories | combos

text \<open>
  \<^verbatim>\<open>interface CartItem\<close>.  The field \<^verbatim>\<open>id\<close> is \<open>itemId\<close> and \<^verbatim>\<open>image\<close> is \<open>imageUri\<close> here
  (both names are constants of HOL).  A quantity is an integer-valued Number.
\<close>

record cartItem =
  itemId :: jsstring
  productId :: jsstring
  name :: jsstring
  price :: jsstring
  imageUri :: jsstring
  quantity :: int
  category :: "category option"

text \<open>
  \<^verbatim>\<open>calculateTotalPrice\<close> (the Cart screen and the Checkout screen hold the same body):
  the value handed to \<^verbatim>\<open>setTotalPrice\<close>.
\<close>

definition parsePrice :: "jsstring \<Rightarrow> jsnum" where
  "parsePrice p = parseFloat (replace (replaceAllDots p) [dong] [])"

definition calculateTotalPrice :: "cartItem list \<Rightarrow> jsnum" where
  "calculateTotalPrice itms =
     foldl (\<lambda>sum item. jsadd sum (jsmul (parsePrice (price item)) (number (quantity item))))
       (Num 0) itms"

datatype itemType = pot | accessory | plant

definition getItemType :: "jsstring \<Rightarrow> itemType" where
  "getItemType pid =
     (if includesStr pid (str ''a'') then pot
      else if includesStr pid (str ''b'') then accessory
      else plant)"

text \<open>The cart that \<^verbatim>\<open>updateQuantity\<close> computes before it writes it back.\<close>

definition updatedCart :: "cartItem list \<Rightarrow> jsstring \<Rightarrow> int \<Rightarrow> cartItem list" where
  "updatedCart cartItems iid newQuantity =
     (if newQuantity = 0 then filter (\<lambda>item. itemId item \<noteq> iid) cartItems
      else map (\<lambda>item. if itemId item = iid then item\<lparr>quantity := newQuantity\<rparr> else item)
             cartItems)"

section \<open>Users, orders and the remote store\<close>

text \<open>\<^verbatim>\<open>interface UserInfo\<close>; the field \<^verbatim>\<open>id\<close> is \<open>userId\<close> here.\<close>

record userInfo =
  userId :: jsstring
  fullName :: jsstring
  email :: jsstring
  phoneNumber :: jsstring

text \<open>An order line: \<^verbatim>\<open>{...item, type: getItemType(item.productId)}\<close>.\<close>

record orderItem = cartItem +
  type :: itemType

record customerInfo =
  customerFullName :: jsstring
  customerEmail :: jsstring
  customerPhoneNumber :: jsstring
  customerAddress :: jsstring

text \<open>
  The object \<^verbatim>\<open>newOrder\<close> of \<^verbatim>\<open>handlePlaceOrder\<close>.  \<open>orderDate\<close> holds the time value
  (milliseconds since the epoch) of the ISO string that \<^verbatim>\<open>toISOString\<close> writes and that
  \<^verbatim>\<open>new Date(order.orderDate)\<close> reads back.
\<close>

record orderRecord =
  orderId :: jsstring
  orderUserId :: jsstring
  customerInfo :: customerInfo
  items :: "orderItem list"
  totalAmount :: jsstring
  orderShippingFee :: jsstring
  finalAmount :: jsstring
  orderPaymentMethod :: jsstring
  status :: jsstring
  orderDate :: int

text \<open>The user resource that \<^verbatim>\<open>GET /users/{id}\<close> returns; two of its fields may be absent.\<close>

record userResource =
  resourceId :: jsstring
  resourceFullName :: jsstring
  resourceEmail :: jsstring
  resourcePhoneNumber :: "jsstring option"
  cart :: "cartItem list option"

datatype request =
    GetUser jsstring
  | PatchUserCart jsstring "cartItem list"
  | PostOrder orderRecord
  | GetOrders jsstring

datatype response = UserData userResource | OrderList "orderRecord list" | Done

text \<open>The notices raised with \<^verbatim>\<open>Alert.alert\<close>, one constructor for each call site.\<close>

datatype alert =
    AddressRequired
  | OrderPlaced
  | OrderFailed
  | UserLoadFailed
  | CartLoadFailed
  | CartUpdateFailed
  | CartRemoveFailed
  | CartClearFailed

datatype route = DangNhap

text \<open>
  Everything outside a screen: the remote store (\<open>dbUsers\<close>, \<open>dbOrders\<close>), the requests sent
  so far (oldest first), the notices shown and the routes pushed.
\<close>

record world =
  dbUsers :: "jsstring \<Rightarrow> userResource option"
  dbOrders :: "orderRecord list"
  sent :: "request list"
  alerts :: "alert list"
  pushed :: "route list"

record calendar =
  getDate :: int
  getMonth :: int
  getFullYear :: int

text \<open>
  What a handler reads from its environment: the session id in \<^verbatim>\<open>AsyncStorage\<close>, the default
  locale, the clock (\<^verbatim>\<open>Date.now()\<close> and \<^verbatim>\<open>new Date()\<close>), the value of
  \<^verbatim>\<open>Math.floor(Math.random() * 1000)\<close>, the local-time fields of a time value in the time
  zone of the device, and whether the transport delivers a given request.
\<close>

record env =
  storedUserId :: "jsstring option"
  deviceLocale :: cldrLocale
  dateNow :: int
  newDate :: int
  randomDraw :: int
  localTime :: "int \<Rightarrow> calendar"
  requestOk :: "request \<Rightarrow> bool"

text \<open>
  Modelled from the spec: the REST backend is not part of the repository.  Section 6 of the
  specification gives its four operations: \<^verbatim>\<open>GET /users/{id}\<close> returns the user resource,
  \<^verbatim>\<open>PATCH /users/{id}\<close> with a cart replaces the whole cart field, \<^verbatim>\<open>POST /orders\<close> creates
  an order, \<^verbatim>\<open>GET /orders?userId=\<close> returns the orders of that user.  A request about a
  user that does not exist fails.
\<close>

fun serve :: "request \<Rightarrow> world \<Rightarrow> (response \<times> world) option" where
  "serve (GetUser uid) w = map_option (\<lambda>u. (UserData u, w)) (dbUsers w uid)"
| "serve (PatchUserCart uid c) w =
     (case dbUsers w uid of
        None \<Rightarrow> None
      | Some u \<Rightarrow> Some (Done, w\<lparr>dbUsers := (dbUsers w)(uid \<mapsto> u\<lparr>cart := Some c\<rparr>)\<rparr>))"
| "serve (PostOrder ord) w = Some (Done, w\<lparr>dbOrders := dbOrders w @ [ord]\<rparr>)"
| "serve (GetOrders uid) w =
     Some (OrderList (filter (\<lambda>ord. orderUserId ord = uid) (dbOrders w)), w)"

text \<open>
  One awaited \<^verbatim>\<open>axios\<close> call.  The request is recorded; \<open>None\<close> is a rejected promise (the
  \<^verbatim>\<open>await\<close> throws), and a request that fails leaves the store as it was.
\<close>

definition axios :: "env \<Rightarrow> request \<Rightarrow> world \<Rightarrow> response option \<times> world" where
  "axios e r w =
     (let w1 = w\<lparr>sent := sent w @ [r]\<rparr>
      in if requestOk e r
         then (case serve r w1 of None \<Rightarrow> (None, w1) | Some (resp, w2) \<Rightarrow> (Some resp, w2))
         else (None, w1))"

text \<open>
  The cart stored for a user, read as the screens read it
  (\<^verbatim>\<open>response.data.cart || []\<close>).
\<close>

definition persistedCart :: "world \<Rightarrow> jsstring \<Rightarrow> cartItem list" where
  "persistedCart w uid =
     (case dbUsers w uid of
        None \<Rightarrow> []
      | Some u \<Rightarrow> (case cart u of None \<Rightarrow> [] | Some c \<Rightarrow> c))"

text \<open>
  \<^verbatim>\<open>await getUserId()\<close> together with the test \<^verbatim>\<open>!userId\<close> that follows it at every call
  site: \<open>None\<close> is a falsy id (nothing stored, or the empty string).
\<close>

definition getUserId :: "env \<Rightarrow> jsstring option" where
  "getUserId e =
     (case storedUserId e of None \<Rightarrow> None | Some u \<Rightarrow> if u = [] then None else Some u)"

section \<open>The Cart screen\<close>

record screen =
  cartItems :: "cartItem list"
  userInfo :: "userInfo option"
  totalPrice :: jsnum
  isLoading :: bool

text \<open>
  \<^verbatim>\<open>fetchCartData\<close>.  The effect on \<^verbatim>\<open>[cartItems]\<close> that recomputes the total runs with the
  new cart, so the total is set in the same step.
\<close>

definition fetchCartData :: "env \<Rightarrow> screen \<times> world \<Rightarrow> screen \<times> world" where
  "fetchCartData e = (\<lambda>(s, w).
     case getUserId e of
       None \<Rightarrow> (s\<lparr>isLoading := False\<rparr>, w)
     | Some uid \<Rightarrow>
         (case axios e (GetUser uid) w of
            (Some (UserData u), w1) \<Rightarrow>
              (let c = (case cart u of None \<Rightarrow> [] | Some c \<Rightarrow> c)
               in (s\<lparr>cartItems := c,
                     userInfo := Some \<lparr>userId = resourceId u, fullName = resourceFullName u,
                                        email = resourceEmail u,
                                        phoneNumber =
                                          (case resourcePhoneNumber u of
                                             None \<Rightarrow> [] | Some p \<Rightarrow> p)\<rparr>,
                     totalPrice := calculateTotalPrice c,
                     isLoading := False\<rparr>, w1))
          | (_, w1) \<Rightarrow>
              (s\<lparr>isLoading := False\<rparr>, w1\<lparr>alerts := alerts w1 @ [CartLoadFailed]\<rparr>)))"

text \<open>
  \<^verbatim>\<open>updateQuantity\<close>: the whole cart is computed from the cart on the screen and written
  back with one \<^verbatim>\<open>PATCH\<close>; the screen reloads after a successful write.
\<close>

definition updateQuantity :: "env \<Rightarrow> jsstring \<Rightarrow> int \<Rightarrow> screen \<times> world \<Rightarrow> screen \<times> world" where
  "updateQuantity e iid newQuantity = (\<lambda>(s, w).
     let s1 = s\<lparr>isLoading := True\<rparr>
     in case getUserId e of
          None \<Rightarrow> (s1, w)
        | Some uid \<Rightarrow>
          (case axios e (PatchUserCart uid
                           (updatedCart (cartItems s1) iid newQuantity)) w of
             (None, w1) \<Rightarrow>
               (s1\<lparr>isLoading := False\<rparr>, w1\<lparr>alerts := alerts w1 @ [CartUpdateFailed]\<rparr>)
           | (Some _, w1) \<Rightarrow> fetchCartData e (s1, w1)))"

text \<open>The two quantity buttons of a rendered cart line.\<close>

definition pressMinus :: "env \<Rightarrow> cartItem \<Rightarrow> screen \<times> world \<Rightarrow> screen \<times> world" where
  "pressMinus e item = updateQuantity e (itemId item) (quantity item - 1)"

definition pressPlus :: "env \<Rightarrow> cartItem \<Rightarrow> screen \<times> world \<Rightarrow> screen \<times> world" where
  "pressPlus e item = updateQuantity e (itemId item) (quantity item + 1)"

definition removeItem :: "env \<Rightarrow> jsstring \<Rightarrow> screen \<times> world \<Rightarrow> screen \<times> world" where
  "removeItem e iid = (\<lambda>(s, w).
     let s1 = s\<lparr>isLoading := True\<rparr>
     in case getUserId e of
          None \<Rightarrow> (s1, w)
        | Some uid \<Rightarrow>
          (case axios e (PatchUserCart uid
                           (filter (\<lambda>item. itemId item \<noteq> iid) (cartItems s1))) w of
             (None, w1) \<Rightarrow>
               (s1\<lparr>isLoading := False\<rparr>, w1\<lparr>alerts := alerts w1 @ [CartRemoveFailed]\<rparr>)
           | (Some _, w1) \<Rightarrow> fetchCartData e (s1, w1)))"

definition removeAllItems :: "env \<Rightarrow> screen \<times> world \<Rightarrow> screen \<times> world" where
  "removeAllItems e = (\<lambda>(s, w).
     let s1 = s\<lparr>isLoading := True\<rparr>
     in case getUserId e of
          None \<Rightarrow> (s1, w)
        | Some uid \<Rightarrow>
          (case axios e (PatchUserCart uid []) w of
             (None, w1) \<Rightarrow>
               (s1\<lparr>isLoading := False\<rparr>, w1\<lparr>alerts := alerts w1 @ [CartClearFailed]\<rparr>)
           | (Some _, w1) \<Rightarrow> fetchCartData e (s1, w1)))"

section \<open>The Checkout screen\<close>

record checkout = screen +
  shippingFee :: jsnum
  address :: jsstring
  paymentMethod :: jsstring

text \<open>The initial values given to \<^verbatim>\<open>useState\<close>.\<close>

definition initialCheckout :: checkout where
  "initialCheckout =
     \<lparr>cartItems = [], userInfo = None, totalPrice = Num 0, isLoading = True,
      shippingFee = Num 30000, address = [], paymentMethod = str ''COD''\<rparr>"

text \<open>The status of a new order, \<^verbatim>\<open>"Dang xu ly"\<close> with its Vietnamese diacritics.\<close>

definition statusProcessing :: jsstring where
  "statusProcessing = [0x110] @ str ''ang x'' @ [0x1EED] @ str '' l'' @ [0xFD]"

definition newOrder :: "env \<Rightarrow> checkout \<Rightarrow> jsstring \<Rightarrow> userInfo \<Rightarrow> orderRecord" where
  "newOrder e s uid info =
     \<lparr>orderId = str ''ord-'' @ intToString (dateNow e) @ intToString (randomDraw e),
      orderUserId = uid,
      customerInfo =
        \<lparr>customerFullName = fullName info, customerEmail = email info,
         customerPhoneNumber = phoneNumber info, customerAddress = address s\<rparr>,
      items = map (\<lambda>item. cartItem.extend item (orderItem.fields (getItemType (productId item))))
                (cartItems s),
      totalAmount = toLocaleString (deviceLocale e) (totalPrice s) @ [dong],
      orderShippingFee = toLocaleString (deviceLocale e) (shippingFee s) @ [dong],
      finalAmount =
        toLocaleString (deviceLocale e) (jsadd (totalPrice s) (shippingFee s)) @ [dong],
      orderPaymentMethod = paymentMethod s,
      status = statusProcessing,
      orderDate = newDate e\<rparr>"

text \<open>
  \<^verbatim>\<open>handlePlaceOrder\<close>.  The early return on a missing session leaves \<open>isLoading\<close> set, as
  the source does; the \<^verbatim>\<open>catch\<close> block is the \<open>OrderFailed\<close> branch of either request.
\<close>

definition handlePlaceOrder :: "env \<Rightarrow> checkout \<times> world \<Rightarrow> checkout \<times> world" where
  "handlePlaceOrder e = (\<lambda>(s, w).
     if trim (address s) = [] then (s, w\<lparr>alerts := alerts w @ [AddressRequired]\<rparr>)
     else
       let s1 = s\<lparr>isLoading := True\<rparr>
       in case (getUserId e, userInfo s1) of
            (Some uid, Some info) \<Rightarrow>
              (case axios e (PostOrder (newOrder e s1 uid info)) w of
                 (None, w1) \<Rightarrow>
                   (s1\<lparr>isLoading := False\<rparr>, w1\<lparr>alerts := alerts w1 @ [OrderFailed]\<rparr>)
               | (Some _, w1) \<Rightarrow>
                   (case axios e (PatchUserCart uid []) w1 of
                      (None, w2) \<Rightarrow>
                        (s1\<lparr>isLoading := False\<rparr>, w2\<lparr>alerts := alerts w2 @ [OrderFailed]\<rparr>)
                    | (Some _, w2) \<Rightarrow>
                        (s1\<lparr>isLoading := False\<rparr>, w2\<lparr>alerts := alerts w2 @ [OrderPlaced]\<rparr>)))
          | _ \<Rightarrow> (s1, w\<lparr>pushed := pushed w @ [DangNhap]\<rparr>))"

section \<open>The Notifications screen\<close>

text \<open>
  \<^verbatim>\<open>Array.prototype.sort\<close> with a comparator.  For a consistent comparator ECMAScript fixes
  the result: the elements in comparator order, equal ones in their original order (the
  sort is stable).  The insertion sort below computes that array.
\<close>

fun insertBy :: "('a \<Rightarrow> 'a \<Rightarrow> int) \<Rightarrow> 'a \<Rightarrow> 'a list \<Rightarrow> 'a list" where
  "insertBy cmp x [] = [x]"
| "insertBy cmp x (y # ys) = (if cmp x y > 0 then y # insertBy cmp x ys else x # y # ys)"

definition arraySort :: "('a \<Rightarrow> 'a \<Rightarrow> int) \<Rightarrow> 'a list \<Rightarrow> 'a list" where
  "arraySort cmp xs = foldr (insertBy cmp) xs []"

text \<open>The comparator of \<^verbatim>\<open>fetchOrders\<close>: \<^verbatim>\<open>new Date(b.orderDate) - new Date(a.orderDate)\<close>.\<close>

definition compareOrders :: "orderRecord \<Rightarrow> orderRecord \<Rightarrow> int" where
  "compareOrders a b = orderDate b - orderDate a"

record notifications =
  orders :: "orderRecord list"
  loading :: bool
  refreshing :: bool

definition fetchOrders :: "env \<Rightarrow> notifications \<times> world \<Rightarrow> notifications \<times> world" where
  "fetchOrders e = (\<lambda>(s, w).
     case getUserId e of
       None \<Rightarrow> (s\<lparr>loading := False, refreshing := False\<rparr>, w)
     | Some uid \<Rightarrow>
         (case axios e (GetOrders uid) w of
            (Some (OrderList dat), w1) \<Rightarrow>
              (s\<lparr>orders := arraySort compareOrders dat, loading := False,
                  refreshing := False\<rparr>, w1)
          | (_, w1) \<Rightarrow> (s\<lparr>loading := False, refreshing := False\<rparr>, w1)))"

definition formatDate :: "env \<Rightarrow> int \<Rightarrow> jsstring" where
  "formatDate e t =
     (let d = localTime e t
      in intToString (getDate d) @ str ''/'' @ intToString (getMonth d + 1) @ str ''/''
         @ intToString (getFullYear d))"

text \<open>
  An object used as a dictionary: its own string-keyed properties in creation order.
  \<open>setProp\<close> is the assignment \<^verbatim>\<open>obj[k] = v\<close>.
\<close>

type_synonym 'v jsobject = "(jsstring \<times> 'v) list"

definition getProp :: "'v jsobject \<Rightarrow> jsstring \<Rightarrow> 'v option" where
  "getProp obj k = map_of obj k"

definition setProp :: "jsstring \<Rightarrow> 'v \<Rightarrow> 'v jsobject \<Rightarrow> 'v jsobject" where
  "setProp k v obj =
     (if k \<in> set (map fst obj) then map (\<lambda>(k', v'). if k' = k then (k', v) else (k', v')) obj
      else obj @ [(k, v)])"

text \<open>
  \<^verbatim>\<open>Object.keys\<close>: the keys that are array indices (canonical decimal numerals below
  \<open>2^32 - 1\<close>) come first in ascending numeric order, the other keys follow in creation order.
\<close>

definition isArrayIndex :: "jsstring \<Rightarrow> bool" where
  "isArrayIndex k =
     (k \<noteq> [] \<and> list_all isDigit k \<and> (hd k \<noteq> 0x30 \<or> length k = 1)
      \<and> decimalValue k < 2 ^ 32 - 1)"

definition objectKeys :: "'v jsobject \<Rightarrow> jsstring list" where
  "objectKeys obj =
     sort_key decimalValue (filter isArrayIndex (map fst obj))
     @ filter (\<lambda>k. \<not> isArrayIndex k) (map fst obj)"

text \<open>
  \<^verbatim>\<open>groupOrdersByDate\<close>, one step of its \<^verbatim>\<open>forEach\<close> and the whole loop over the orders on
  the screen.  \<^verbatim>\<open>!grouped[date]\<close> holds exactly when the key is absent: a stored array is
  truthy, and a key produced by \<open>formatDate\<close> contains \<^verbatim>\<open>/\<close>, so it names no inherited property.
\<close>

definition groupStep ::
  "env \<Rightarrow> orderRecord list jsobject \<Rightarrow> orderRecord \<Rightarrow> orderRecord list jsobject" where
  "groupStep e grouped ord =
     (let date = formatDate e (orderDate ord);
          g1 = (if getProp grouped date = None then setProp date [] grouped else grouped)
      in case getProp g1 date of
           None \<Rightarrow> g1
         | Some bucket \<Rightarrow> setProp date (bucket @ [ord]) g1)"

definition groupOrdersByDate :: "env \<Rightarrow> orderRecord list \<Rightarrow> orderRecord list jsobject" where
  "groupOrdersByDate e ords = foldl (groupStep e) [] ords"

text \<open>\<^verbatim>\<open>const dateKeys = Object.keys(groupedOrders)\<close>.\<close>

definition dateKeys :: "env \<Rightarrow> orderRecord list \<Rightarrow> jsstring list" where
  "dateKeys e ords = objectKeys (groupOrdersByDate e ords)"

section \<open>Example data\<close>

definition exampleLine :: "jsstring \<Rightarrow> jsstring \<Rightarrow> int \<Rightarrow> cartItem" where
  "exampleLine i p q =
     \<lparr>itemId = i, productId = str ''p'' @ i, name = str ''Lan'', price = p, imageUri = [],
      quantity = q, category = Some plants\<rparr>"

text \<open>The cart of the specification's examples: \<^verbatim>\<open>"10.000d"\<close> twice and \<^verbatim>\<open>"5.000d"\<close> three times.\<close>

definition exampleCart :: "cartItem list" where
  "exampleCart =
     [exampleLine (str ''1'') (str ''10.000'' @ [dong]) 2,
      exampleLine (str ''2'') (str ''5.000'' @ [dong]) 3]"

definition exampleUser :: userResource where
  "exampleUser =
     \<lparr>resourceId = str ''u1'', resourceFullName = str ''An'',
      resourceEmail = str ''an@example.com'', resourcePhoneNumber = Some (str ''0900''),
      cart = Some exampleCart\<rparr>"

definition exampleWorld :: world where
  "exampleWorld =
     \<lparr>dbUsers = [str ''u1'' \<mapsto> exampleUser], dbOrders = [], sent = [], alerts = [],
      pushed = []\<rparr>"

text \<open>
  The local-time fields of a device in the UTC time zone: the civil date of the day that
  holds the time value, in the proleptic Gregorian calendar.  Days are counted from
  1 March 0000, in eras of 400 years (146097 days); a year of the era starts on 1 March.
\<close>

definition dayOfEra :: "int \<Rightarrow> int" where
  "dayOfEra t = (t div 86400000 + 719468) mod 146097"

definition yearOfEra :: "int \<Rightarrow> int" where
  "yearOfEra t =
     (dayOfEra t - dayOfEra t div 1460 + dayOfEra t div 36524 - dayOfEra t div 146096) div 365"

definition marchYear :: "int \<Rightarrow> int" where
  "marchYear t = yearOfEra t + (t div 86400000 + 719468) div 146097 * 400"

definition dayOfMarchYear :: "int \<Rightarrow> int" where
  "dayOfMarchYear t = dayOfEra t - (365 * yearOfEra t + yearOfEra t div 4 - yearOfEra t div 100)"

definition marchMonth :: "int \<Rightarrow> int" where
  "marchMonth t = (5 * dayOfMarchYear t + 2) div 153"

definition exampleLocalTime :: "int \<Rightarrow> calendar" where
  "exampleLocalTime t =
     \<lparr>getDate = dayOfMarchYear t - (153 * marchMonth t + 2) div 5 + 1,
      getMonth = (if marchMonth t < 10 then marchMonth t + 2 else marchMonth t - 10),
      getFullYear = (if marchMonth t < 10 then marchYear t else marchYear t + 1)\<rparr>"

definition exampleEnv :: "cldrLocale \<Rightarrow> (request \<Rightarrow> bool) \<Rightarrow> env" where
  "exampleEnv loc ok =
     \<lparr>storedUserId = Some (str ''u1''), deviceLocale = loc, dateNow = 90000000,
      newDate = 90000000, randomDraw = 7, localTime = exampleLocalTime, requestOk = ok\<rparr>"

definition exampleInfo :: userInfo where
  "exampleInfo = \<lparr>userId = str ''u1'', fullName = str ''An'', email = str ''an@example.com'',
      phoneNumber = str ''0900''\<rparr>"

definition exampleCheckout :: checkout where
  "exampleCheckout =
     initialCheckout\<lparr>cartItems := exampleCart, userInfo := Some exampleInfo,
       totalPrice := Num 35000, isLoading := False, address := str ''123 Main''\<rparr>"

definition exampleOrder :: "jsstring \<Rightarrow> int \<Rightarrow> orderRecord" where
  "exampleOrder i t =
     \<lparr>orderId = i, orderUserId = str ''u1'',
      customerInfo =
        \<lparr>customerFullName = str ''An'', customerEmail = str ''an@example.com'',
         customerPhoneNumber = str ''0900'', customerAddress = str ''123 Main''\<rparr>,
      items = [], totalAmount = str ''35.000'' @ [dong],
      orderShippingFee = str ''30.000'' @ [dong], finalAmount = str ''65.000'' @ [dong],
      orderPaymentMethod = str ''COD'', status = statusProcessing, orderDate = t\<rparr>"

definition exampleScreen :: screen where
  "exampleScreen =
     \<lparr>cartItems = exampleCart, userInfo = Some exampleInfo, totalPrice = Num 35000,
      isLoading = False\<rparr>"

definition exampleNotifications :: notifications where
  "exampleNotifications = \<lparr>orders = [], loading = True, refreshing = False\<rparr>"

section \<open>Product classification\<close>

lemma startsWith_single: "startsWith s [c] = (s \<noteq> [] \<and> hd s = c)"
  by (cases s) auto

lemma includesStr_single: "includesStr s [c] = (c \<in> set s)"
  by (induction s) (auto simp: startsWith_single)

text \<open>
  C9, as stated, at the product id \<^verbatim>\<open>"ab"\<close>: the id contains \<^verbatim>\<open>"b"\<close>, and it is not
  classified as an accessory.
\<close>

theorem getItemType_b_not_accessory:
  "includesStr (str ''ab'') (str ''b'') \<and> getItemType (str ''ab'') \<noteq> accessory"
  by (simp add: getItemType_def str_def includesStr_single)

text \<open>
  C9 (amended): \<open>getItemType\<close> is a function of the product id alone; every id that contains
  \<^verbatim>\<open>"a"\<close> is a pot, every id that contains \<^verbatim>\<open>"b"\<close> and no \<^verbatim>\<open>"a"\<close> is an accessory,
  and every other id is a plant.
\<close>

theorem getItemType_first_match:
  "(includesStr pid (str ''a'') \<longrightarrow> getItemType pid = pot)
   \<and> (includesStr pid (str ''b'') \<and> \<not> includesStr pid (str ''a'')
        \<longrightarrow> getItemType pid = accessory)
   \<and> (\<not> includesStr pid (str ''a'') \<and> \<not> includesStr pid (str ''b'')
        \<longrightarrow> getItemType pid = plant)"
  by (simp add: getItemType_def)

theorem getItemType_first_match_witness:
  "includesStr (str ''a1'') (str ''a'') \<and> getItemType (str ''a1'') = pot
   \<and> includesStr (str ''b1'') (str ''b'') \<and> \<not> includesStr (str ''b1'') (str ''a'')
   \<and> getItemType (str ''b1'') = accessory
   \<and> \<not> includesStr (str ''c1'') (str ''a'') \<and> \<not> includesStr (str ''c1'') (str ''b'')
   \<and> getItemType (str ''c1'') = plant"
  using getItemType_first_match [of "str ''a1''"] getItemType_first_match [of "str ''b1''"]
    getItemType_first_match [of "str ''c1''"]
  by (simp add: str_def includesStr_single)

text \<open>
  C10: an id that contains both \<^verbatim>\<open>"a"\<close> and \<^verbatim>\<open>"b"\<close> is a pot (the test for \<^verbatim>\<open>"a"\<close> comes
  first), and the tests are case-sensitive: an id with an upper-case \<^verbatim>\<open>"A"\<close> or \<^verbatim>\<open>"B"\<close>
  and neither lower-case letter is a plant.
\<close>

theorem getItemType_precedence:
  "(includesStr pid (str ''a'') \<and> includesStr pid (str ''b'') \<longrightarrow> getItemType pid = pot)
   \<and> ((includesStr pid (str ''A'') \<or> includesStr pid (str ''B''))
        \<and> \<not> includesStr pid (str ''a'') \<and> \<not> includesStr pid (str ''b'')
        \<longrightarrow> getItemType pid = plant)"
  by (simp add: getItemType_def)

theorem getItemType_precedence_witness:
  "includesStr (str ''ab'') (str ''a'') \<and> includesStr (str ''ab'') (str ''b'')
   \<and> getItemType (str ''ab'') = pot
   \<and> includesStr (str ''AB'') (str ''A'') \<and> \<not> includesStr (str ''AB'') (str ''a'')
   \<and> \<not> includesStr (str ''AB'') (str ''b'') \<and> getItemType (str ''AB'') = plant"
  using getItemType_precedence [of "str ''ab''"] getItemType_precedence [of "str ''AB''"]
  by (simp add: str_def includesStr_single)

section \<open>Rounding to binary64\<close>

subsection \<open>Binary exponents\<close>

lemma bitLength_pos: "0 < n \<Longrightarrow> 0 < bitLength n"
  by (subst bitLength.simps) simp

lemma bitLength_bounds:
  "0 < n \<Longrightarrow> 2 ^ (bitLength n - 1) \<le> n \<and> n < 2 ^ bitLength n"
proof (induction n rule: bitLength.induct)
  case (1 n)
  show ?case
  proof (cases "n div 2 = 0")
    case True
    with "1.prems" have "n = 1" by linarith
    then show ?thesis by (simp add: bitLength.simps)
  next
    case False
    with "1.prems" have m: "0 < n div 2" by linarith
    from "1.IH" [OF _ m] "1.prems"
    have ih: "2 ^ (bitLength (n div 2) - 1) \<le> n div 2" "n div 2 < 2 ^ bitLength (n div 2)"
      by simp_all
    have b: "bitLength n = Suc (bitLength (n div 2))"
      using "1.prems" by (subst bitLength.simps) simp
    from bitLength_pos [OF m] obtain k where k: "bitLength (n div 2) = Suc k"
      by (cases "bitLength (n div 2)") simp_all
    from ih k have "2 * 2 ^ k \<le> 2 * (n div 2)" by simp
    also have "\<dots> \<le> n" by linarith
    finally have lo: "2 ^ (bitLength n - 1) \<le> n" by (simp add: b k)
    from ih(2) have "n div 2 + 1 \<le> 2 ^ bitLength (n div 2)" by simp
    then have "2 * (n div 2) + 2 \<le> 2 * 2 ^ bitLength (n div 2)" by simp
    moreover have "n \<le> 2 * (n div 2) + 1" by linarith
    ultimately have "n < 2 ^ bitLength n" by (simp add: b)
    with lo show ?thesis by simp
  qed
qed

lemma floorLog2_bounds:
  assumes "0 < a"
  shows "2 powi (floorLog2 a) \<le> a" and "a < 2 powi (floorLog2 a + 1)"
proof -
  have "2 powi (floorLog2 a) \<le> a \<and> a < 2 powi (floorLog2 a + 1)"
  proof (cases "1 \<le> a")
    case True
    let ?n = "\<lfloor>a\<rfloor>"
    from True have n: "0 < ?n" by simp
    from bitLength_pos [OF n] obtain k where k: "bitLength ?n = Suc k"
      by (cases "bitLength ?n") simp_all
    from bitLength_bounds [OF n] k have "2 ^ k \<le> ?n" and "?n < 2 ^ Suc k" by simp_all
    then have "(of_int (2 ^ k) :: rat) \<le> of_int ?n" and "?n + 1 \<le> 2 ^ Suc k"
      by (simp_all only: of_int_le_iff)
    then have lo: "(2 :: rat) ^ k \<le> a" by (simp add: le_floor_iff)
    have "a < of_int (?n + 1)" by linarith
    also have "\<dots> \<le> of_int (2 ^ Suc k)" using \<open>?n + 1 \<le> 2 ^ Suc k\<close> by (simp only: of_int_le_iff)
    finally have hi: "a < 2 ^ Suc k" by simp
    have e: "floorLog2 a = int k" using True k by (simp add: floorLog2_def)
    have "int k + 1 = int (Suc k)" by simp
    with lo hi show ?thesis unfolding e by (simp only: power_int_of_nat) 
  next
    case False
    let ?N = "\<lceil>1 / a\<rceil>"
    from False assms have b: "1 < 1 / a" by simp
    then have N: "0 < ?N - 1" by linarith
    from bitLength_pos [OF N] obtain k where k: "bitLength (?N - 1) = Suc k"
      by (cases "bitLength (?N - 1)") simp_all
    from bitLength_bounds [OF N] k have "2 ^ k \<le> ?N - 1" and "?N - 1 < 2 ^ Suc k" by simp_all
    then have 1: "(of_int (2 ^ k) :: rat) \<le> of_int (?N - 1)" and 2: "?N \<le> 2 ^ Suc k"
      by (simp only: of_int_le_iff, linarith)
    have "of_int (?N - 1) < 1 / a" by linarith
    with 1 have "(2 :: rat) ^ k < 1 / a" by simp
    then have hi: "a < 1 / 2 ^ k" using assms by (simp add: field_simps)
    have "1 / a \<le> of_int ?N" by linarith
    also have "\<dots> \<le> of_int (2 ^ Suc k)" using 2 by (simp only: of_int_le_iff)
    finally have "1 / a \<le> 2 ^ Suc k" by simp
    then have lo: "1 / 2 ^ Suc k \<le> a" using assms by (simp add: field_simps)
    have e: "floorLog2 a = - int (Suc k)" using False k by (simp add: floorLog2_def)
    have e1: "- int (Suc k) + 1 = - int k" by simp
    from lo hi show ?thesis unfolding e e1
      by (simp only: power_int_minus power_int_of_nat inverse_eq_divide)
  qed
  then show "2 powi (floorLog2 a) \<le> a" and "a < 2 powi (floorLog2 a + 1)" by simp_all
qed

lemma floorLog2_ge:
  assumes "2 powi e \<le> a"
  shows "e \<le> floorLog2 a"
proof (rule ccontr)
  assume "\<not> e \<le> floorLog2 a"
  then have "floorLog2 a + 1 \<le> e" by simp
  then have "(2 :: rat) powi (floorLog2 a + 1) \<le> 2 powi e"
    by (intro power_int_increasing) simp_all
  moreover have "0 < (2 :: rat) powi e" by simp
  with assms have "0 < a" by linarith
  from floorLog2_bounds(2) [OF this] have "a < 2 powi (floorLog2 a + 1)" .
  ultimately show False using assms by linarith
qed

lemma floorLog2_le:
  assumes "0 < a" and "a < 2 powi (e + 1)"
  shows "floorLog2 a \<le> e"
proof (rule ccontr)
  assume "\<not> floorLog2 a \<le> e"
  then have "e + 1 \<le> floorLog2 a" by simp
  then have "(2 :: rat) powi (e + 1) \<le> 2 powi (floorLog2 a)"
    by (intro power_int_increasing) simp_all
  then show False using floorLog2_bounds(1) [OF assms(1)] assms(2) by linarith
qed

lemma floorLog2_mono:
  assumes "0 < a" and "a \<le> b"
  shows "floorLog2 a \<le> floorLog2 b"
proof -
  from assms have "2 powi (floorLog2 a) \<le> b" using floorLog2_bounds(1) [OF assms(1)] by linarith
  then show ?thesis by (rule floorLog2_ge)
qed

subsection \<open>Rounding to an integer\<close>

lemma roundHalfEven_range: "\<lfloor>x\<rfloor> \<le> roundHalfEven x \<and> roundHalfEven x \<le> \<lfloor>x\<rfloor> + 1"
  by (simp add: roundHalfEven_def Let_def)

lemma roundHalfEven_of_int [simp]: "roundHalfEven (of_int n) = n"
  by (simp add: roundHalfEven_def Let_def)

lemma roundHalfEven_mono:
  assumes "x \<le> y"
  shows "roundHalfEven x \<le> roundHalfEven y"
proof (cases "\<lfloor>x\<rfloor> = \<lfloor>y\<rfloor>")
  case True
  with assms have "x - of_int \<lfloor>x\<rfloor> \<le> y - of_int \<lfloor>y\<rfloor>" by simp
  with True show ?thesis by (auto simp: roundHalfEven_def Let_def)
next
  case False
  with assms have "\<lfloor>x\<rfloor> + 1 \<le> \<lfloor>y\<rfloor>" using floor_mono [OF assms] by linarith
  with roundHalfEven_range [of x] roundHalfEven_range [of y] show ?thesis by linarith
qed

subsection \<open>Rounded values: bounds, monotonicity, exactness on safe integers\<close>

lemma roundMagnitude_nonneg: "0 \<le> a \<Longrightarrow> 0 \<le> roundMagnitude a"
proof -
  assume a: "0 \<le> a"
  let ?u = "(2 :: rat) powi (max (floorLog2 a) (- 1022) - 52)"
  have u: "0 < ?u" by simp
  with a have "0 \<le> a / ?u" by simp
  then have "roundHalfEven 0 \<le> roundHalfEven (a / ?u)" by (rule roundHalfEven_mono)
  then have "0 \<le> roundHalfEven (a / ?u)" using roundHalfEven_of_int [of 0] by simp
  with u show ?thesis by (simp add: roundMagnitude_def Let_def)
qed

lemma roundMagnitude_upper:
  assumes "0 < a"
  shows "roundMagnitude a \<le> 2 powi (max (floorLog2 a) (- 1022) + 1)"
proof -
  let ?e = "max (floorLog2 a) (- 1022)"
  let ?u = "(2 :: rat) powi (?e - 52)"
  have u: "0 < ?u" by simp
  have "a < 2 powi (floorLog2 a + 1)" by (rule floorLog2_bounds(2) [OF assms])
  also have "\<dots> \<le> 2 powi (?e + 1)" by (intro power_int_increasing) simp_all
  finally have "a / ?u \<le> 2 powi (?e + 1) / ?u" using u by (simp add: divide_right_mono)
  also have "\<dots> = 2 powi 53"
    by (simp add: power_int_diff [symmetric] del: power_int_numeral)
  finally have "a / ?u \<le> of_int (2 ^ 53)" by simp
  then have "roundHalfEven (a / ?u) \<le> roundHalfEven (of_int (2 ^ 53))"
    by (rule roundHalfEven_mono)
  then have "(of_int (roundHalfEven (a / ?u)) :: rat) \<le> of_int (2 ^ 53)"
    by (simp only: roundHalfEven_of_int of_int_le_iff)
  then have "of_int (roundHalfEven (a / ?u)) * ?u \<le> of_int (2 ^ 53) * ?u"
    using u by (simp only: mult_le_cancel_right_pos)
  also have "of_int (2 ^ 53) * ?u = 2 powi 53 * ?u" by simp
  also have "\<dots> = 2 powi (?e + 1)"
    by (simp add: power_int_add [symmetric] add.commute del: power_int_numeral)
  finally show ?thesis by (simp add: roundMagnitude_def Let_def)
qed

lemma roundMagnitude_lower:
  assumes "- 1022 \<le> floorLog2 a" and "0 < a"
  shows "2 powi (floorLog2 a) \<le> roundMagnitude a"
proof -
  let ?e = "floorLog2 a"
  let ?u = "(2 :: rat) powi (?e - 52)"
  have u: "0 < ?u" by simp
  from assms(1) have m: "max ?e (- 1022) = ?e" by simp
  have "2 powi ?e / ?u \<le> a / ?u"
    using floorLog2_bounds(1) [OF assms(2)] u by (simp add: divide_right_mono)
  moreover have "2 powi ?e / ?u = 2 powi 52"
    by (simp add: power_int_diff [symmetric] del: power_int_numeral)
  ultimately have "of_int (2 ^ 52) \<le> a / ?u" by simp
  then have "roundHalfEven (of_int (2 ^ 52)) \<le> roundHalfEven (a / ?u)"
    by (rule roundHalfEven_mono)
  then have "(of_int (2 ^ 52) :: rat) \<le> of_int (roundHalfEven (a / ?u))"
    by (simp only: roundHalfEven_of_int of_int_le_iff)
  then have r: "of_int (2 ^ 52) * ?u \<le> of_int (roundHalfEven (a / ?u)) * ?u"
    using u by (simp only: mult_le_cancel_right_pos)
  have "2 powi ?e = 2 powi 52 * ?u"
    by (simp add: power_int_add [symmetric] del: power_int_numeral)
  also have "\<dots> = of_int (2 ^ 52) * ?u" by simp
  also note r
  finally show ?thesis unfolding roundMagnitude_def Let_def m .
qed

lemma roundMagnitude_mono:
  assumes "0 < a" and "a \<le> b"
  shows "roundMagnitude a \<le> roundMagnitude b"
proof -
  let ?ea = "max (floorLog2 a) (- 1022)"
  let ?eb = "max (floorLog2 b) (- 1022)"
  from assms have b: "0 < b" by simp
  have le: "?ea \<le> ?eb" using floorLog2_mono [OF assms] by simp
  show ?thesis
  proof (cases "?ea = ?eb")
    case True
    let ?u = "(2 :: rat) powi (?ea - 52)"
    have u: "0 < ?u" by simp
    from assms(2) u have "a / ?u \<le> b / ?u" by (simp add: divide_right_mono)
    then have "roundHalfEven (a / ?u) \<le> roundHalfEven (b / ?u)" by (rule roundHalfEven_mono)
    then have "(of_int (roundHalfEven (a / ?u)) :: rat) \<le> of_int (roundHalfEven (b / ?u))"
      by (simp only: of_int_le_iff)
    then have "of_int (roundHalfEven (a / ?u)) * ?u \<le> of_int (roundHalfEven (b / ?u)) * ?u"
      using u by (simp only: mult_le_cancel_right_pos)
    then show ?thesis unfolding roundMagnitude_def Let_def True [symmetric] .
  next
    case False
    with le have lt: "?ea + 1 \<le> ?eb" by simp
    then have f: "- 1022 \<le> floorLog2 b" and eb: "?eb = floorLog2 b" by simp_all
    have "roundMagnitude a \<le> 2 powi (?ea + 1)" by (rule roundMagnitude_upper [OF assms(1)])
    also have "\<dots> \<le> 2 powi ?eb" using lt by (intro power_int_increasing) simp_all
    also have "\<dots> \<le> roundMagnitude b" unfolding eb by (rule roundMagnitude_lower [OF f b])
    finally show ?thesis .
  qed
qed

lemma Ints_roundHalfEven: "x \<in> \<int> \<Longrightarrow> of_int (roundHalfEven x) = x"
  by (auto elim: Ints_cases)

lemma roundMagnitude_exact:
  assumes "0 < n" and "n \<le> 2 ^ 53"
  shows "roundMagnitude (of_int n) = of_int n"
proof -
  let ?a = "of_int n :: rat"
  let ?e = "floorLog2 ?a"
  let ?u = "(2 :: rat) powi (?e - 52)"
  from assms(1) have a: "0 < ?a" by simp
  have "2 powi 0 \<le> ?a" using assms(1) by simp
  then have e0: "0 \<le> ?e" by (rule floorLog2_ge)
  then have m: "max ?e (- 1022) = ?e" by simp
  have "?a \<le> of_int (2 ^ 53)" using assms(2) by (simp only: of_int_le_iff)
  then have a53: "?a \<le> 2 ^ 53" by simp
  then have "?a < 2 powi (53 + 1)" by simp
  with a have e53: "?e \<le> 53" by (rule floorLog2_le)
  have "?a / ?u \<in> \<int>"
  proof (cases "?e \<le> 52")
    case True
    then have "?a / ?u = ?a * 2 powi (52 - ?e)"
      by (simp add: power_int_diff field_simps del: power_int_numeral)
    also have "\<dots> = of_int (n * 2 ^ nat (52 - ?e))"
      using True by (simp add: power_int_def)
    finally show ?thesis by simp
  next
    case False
    with e53 have e: "?e = 53" by simp
    from floorLog2_bounds(1) [OF a] e have "2 ^ 53 \<le> ?a" by simp
    with a53 have v: "?a = 2 ^ 53" by simp
    have "?u = 2" unfolding e by simp
    then have "?a / ?u = 2 ^ 53 / 2" using v by simp
    also have "\<dots> = of_int (2 ^ 52)" by simp
    finally show ?thesis by (simp only: Ints_of_int)
  qed
  then have "of_int (roundHalfEven (?a / ?u)) = ?a / ?u" by (rule Ints_roundHalfEven)
  then show ?thesis by (simp add: roundMagnitude_def Let_def m)
qed

lemma toBinary64_exact:
  assumes "\<bar>n\<bar> \<le> 2 ^ 53"
  shows "toBinary64 (of_int n) = Num (of_int n)"
proof (cases "n = 0")
  case True
  then show ?thesis by (simp add: toBinary64_def)
next
  case False
  then have p: "0 < \<bar>n\<bar>" by simp
  have r: "roundMagnitude \<bar>of_int n\<bar> = of_int \<bar>n\<bar>"
    using roundMagnitude_exact [OF p assms] by simp
  have "(of_int \<bar>n\<bar> :: rat) \<le> of_int (2 ^ 53)" using assms by (simp only: of_int_le_iff)
  also have "\<dots> < 2 ^ 1024" by simp
  finally have "\<not> (2 :: rat) ^ 1024 \<le> of_int \<bar>n\<bar>" by simp
  with False r show ?thesis by (auto simp: toBinary64_def)
qed

lemma toBinary64_Ints:
  assumes "x \<in> \<int>" and "\<bar>x\<bar> \<le> 2 ^ 53"
  shows "toBinary64 x = Num x"
proof -
  from assms(1) obtain n where x: "x = of_int n" by (rule Ints_cases)
  with assms(2) have "(of_int \<bar>n\<bar> :: rat) \<le> of_int (2 ^ 53)" by simp
  then have "\<bar>n\<bar> \<le> 2 ^ 53" by (simp only: of_int_le_iff)
  then show ?thesis unfolding x by (rule toBinary64_exact)
qed

lemma toBinary64_not_NaN [simp]: "toBinary64 x \<noteq> NaN"
  by (simp add: toBinary64_def)

lemma toBinary64_mono:
  assumes "x \<le> y"
  shows "\<not> jslt (toBinary64 y) (toBinary64 x)"
proof -
  have pos: "\<not> jslt (toBinary64 b) (toBinary64 a)" if "0 < a" "a \<le> b" for a b
  proof -
    from that have "0 < b" by simp
    with that roundMagnitude_mono [OF that] show ?thesis
      by (auto simp: toBinary64_def)
  qed
  have neg: "\<not> jslt (toBinary64 b) (toBinary64 a)" if "b < 0" "a \<le> b" for a b
  proof -
    from that have "0 < - b" "- b \<le> - a" by simp_all
    from roundMagnitude_mono [OF this] that show ?thesis
      by (auto simp: toBinary64_def abs_if)
  qed
  show ?thesis
  proof (cases "0 < x")
    case True
    then show ?thesis using assms by (rule pos)
  next
    case x: False
    show ?thesis
    proof (cases "y < 0")
      case True
      then show ?thesis using assms by (rule neg)
    next
      case False
      with x have "x \<le> 0" "0 \<le> y" by simp_all
      with roundMagnitude_nonneg [of "\<bar>x\<bar>"] roundMagnitude_nonneg [of "\<bar>y\<bar>"]
      show ?thesis by (auto simp: toBinary64_def)
    qed
  qed
qed

lemma jslt_simps [simp]:
  "jslt x NaN = False" "jslt x NegInf = False" "jslt PosInf x = False" "jslt x x = False"
  by (cases x; simp)+

lemma jsadd_mono_left: "\<not> jslt b a \<Longrightarrow> \<not> jslt (jsadd b t) (jsadd a t)"
proof (cases a; cases b; cases t)
qed (auto dest: toBinary64_mono [rotated] simp: toBinary64_mono)

lemma jsadd_mono_right: "\<not> jslt y x \<Longrightarrow> \<not> jslt (jsadd acc y) (jsadd acc x)"
proof (cases x; cases y; cases acc)
qed (auto simp: toBinary64_mono)

section \<open>Decimal digits: printing and parsing\<close>

lemma digitChar_cases:
  assumes "d < 10"
  shows "digitChar d \<in> {0x30, 0x31, 0x32, 0x33, 0x34, 0x35, 0x36, 0x37, 0x38, 0x39}"
proof -
  from assms have "d \<in> {0, 1, 2, 3, 4, 5, 6, 7, 8, 9}" by auto
  then show ?thesis by (auto simp: digitChar_def)
qed

lemma digitValue_digitChar:
  assumes "d < 10"
  shows "digitValue (digitChar d) = int d"
proof -
  from assms have "d \<in> {0, 1, 2, 3, 4, 5, 6, 7, 8, 9}" by auto
  then show ?thesis by (auto simp: digitChar_def digitValue_def)
qed

lemma set_digitsOf:
  "set (digitsOf n) \<subseteq> {0x30, 0x31, 0x32, 0x33, 0x34, 0x35, 0x36, 0x37, 0x38, 0x39}"
proof (induction n rule: digitsOf.induct)
  case (1 n)
  show ?case
  proof (cases "n < 10")
    case True
    then show ?thesis using digitChar_cases [of n] by (subst digitsOf.simps) simp
  next
    case False
    have "n mod 10 < 10" by simp
    from digitChar_cases [OF this] False "1.IH" show ?thesis
      by (subst digitsOf.simps) simp
  qed
qed

lemma digitsOf_chars:
  assumes "c \<in> set (digitsOf n)"
  shows "isDigit c" and "\<not> isWhiteSpace c" and "c \<noteq> 0x2E" and "c \<noteq> dong"
    and "c \<noteq> 0x2D" and "c \<noteq> 0x2B"
  using assms set_digitsOf [of n]
  by (auto simp: isDigit_def isWhiteSpace_def dong_def)

lemma digitsOf_nonempty: "digitsOf n \<noteq> []"
  by (subst digitsOf.simps) simp

lemma decimalValue_snoc: "decimalValue (ds @ [d]) = 10 * decimalValue ds + digitValue d"
  by (simp add: decimalValue_def)

lemma decimalValue_digitsOf: "decimalValue (digitsOf n) = int n"
proof (induction n rule: digitsOf.induct)
  case (1 n)
  show ?case
  proof (cases "n < 10")
    case True
    then show ?thesis
      by (subst digitsOf.simps) (simp add: decimalValue_def digitValue_digitChar)
  next
    case False
    have "decimalValue (digitsOf n)
          = 10 * decimalValue (digitsOf (n div 10)) + digitValue (digitChar (n mod 10))"
      using False by (subst digitsOf.simps) (simp add: decimalValue_snoc)
    also have "\<dots> = 10 * int (n div 10) + int (n mod 10)"
      using False "1.IH" by (simp add: digitValue_digitChar)
    also have "\<dots> = int n" by presburger
    finally show ?thesis .
  qed
qed

lemma takeWhile_digitsOf: "takeWhile isDigit (digitsOf n) = digitsOf n"
  using digitsOf_chars(1) by (simp add: takeWhile_eq_all_conv)


lemma dropWhile_digitsOf: "dropWhile isDigit (digitsOf n) = []"
  using digitsOf_chars(1) by (simp add: dropWhile_eq_Nil_conv)

lemma jsneg_toBinary64: "jsneg (toBinary64 x) = toBinary64 (- x)"
  by (simp add: toBinary64_def)

lemma number_minus: "jsneg (number n) = number (- n)"
  by (simp add: number_def jsneg_toBinary64)

lemma number_exact: "\<bar>n\<bar> \<le> 2 ^ 53 \<Longrightarrow> number n = Num (of_int n)"
  unfolding number_def by (rule toBinary64_exact)

lemma parseUnsigned_digitsOf: "parseUnsigned (digitsOf n) = number (int n)"
proof (cases "digitsOf n")
  case Nil
  then show ?thesis by (simp add: digitsOf_nonempty)
next
  case (Cons c r)
  then have "c \<in> set (digitsOf n)" by simp
  from digitsOf_chars(1) [OF this] have "c \<noteq> 0x49" by (auto simp: isDigit_def)
  then have "\<not> startsWith (digitsOf n) (str ''Infinity'')" by (simp add: Cons str_def)
  then show ?thesis
    by (simp add: parseUnsigned_def Let_def takeWhile_digitsOf dropWhile_digitsOf
        digitsOf_nonempty decimalValue_digitsOf exponentPart_def number_def)
qed

lemma parseFloat_digitsOf: "parseFloat (digitsOf n) = number (int n)"
proof (cases "digitsOf n")
  case Nil
  then show ?thesis by (simp add: digitsOf_nonempty)
next
  case (Cons c r)
  then have c: "c \<in> set (digitsOf n)" by simp
  have "dropWhile isWhiteSpace (c # r) = c # r"
    using digitsOf_chars(2) [OF c] by simp
  with Cons show ?thesis
    using digitsOf_chars(5,6) [OF c] parseUnsigned_digitsOf [of n]
    by (simp add: parseFloat_def)
qed

lemma parseFloat_minus_digitsOf: "parseFloat (0x2D # digitsOf n) = number (- int n)"
  by (simp add: parseFloat_def isWhiteSpace_def parseUnsigned_digitsOf number_minus)

subsection \<open>A price written for the Vietnamese locale parses back to its amount\<close>

lemma filter_groupReversed:
  "filter (\<lambda>c. c \<noteq> sep) (groupReversed sep ds) = filter (\<lambda>c. c \<noteq> sep) ds"
  by (induction sep ds rule: groupReversed.induct) simp_all

lemma replaceAllDots_groupedDigits: "replaceAllDots (groupedDigits vi_VN n) = digitsOf n"
proof -
  have "filter (\<lambda>c. c \<noteq> 0x2E) (digitsOf n) = digitsOf n"
    using digitsOf_chars(3) by (simp add: filter_id_conv)
  then show ?thesis
    by (simp add: replaceAllDots_def groupedDigits_def filter_groupReversed rev_filter [symmetric])
qed

lemma replace_last_single: "c \<notin> set s \<Longrightarrow> replace (s @ [c]) [c] [] = s"
  by (induction s) auto

lemma toLocaleString_Ints:
  assumes "x \<in> \<int>"
  shows "toLocaleString loc (Num x)
         = (if x < 0 then 0x2D # groupedDigits loc (nat \<lfloor>- x\<rfloor>)
            else groupedDigits loc (nat \<lfloor>x\<rfloor>))"
proof -
  from assms obtain n where x: "x = of_int n" by (rule Ints_cases)
  have "\<lfloor>\<bar>of_int n :: rat\<bar> * 1000 + 1 / 2\<rfloor> = \<bar>n\<bar> * 1000"
    by (rule floor_unique) simp_all
  then have m: "nat \<lfloor>\<bar>of_int n :: rat\<bar> * 1000 + 1 / 2\<rfloor> = nat \<bar>n\<bar> * 1000"
    by (simp add: nat_mult_distrib)
  have "toLocaleString loc (Num (of_int n))
        = (if n < 0 then 0x2D # groupedDigits loc (nat \<bar>n\<bar>) else groupedDigits loc (nat \<bar>n\<bar>))"
    unfolding toLocaleString.simps m by (simp add: Let_def fractionDigits_def)
  also have "\<dots> = (if n < 0 then 0x2D # groupedDigits loc (nat (- n))
                    else groupedDigits loc (nat n))"
    by simp
  finally show ?thesis unfolding x
    by (simp only: of_int_less_0_iff of_int_minus [symmetric] floor_of_int)
qed

lemma toLocaleString_of_int:
  "toLocaleString loc (Num (of_int n))
   = (if n < 0 then 0x2D # groupedDigits loc (nat (- n)) else groupedDigits loc (nat n))"
  by (simp add: toLocaleString_Ints)

lemma stripped_price:
  "replace (replaceAllDots (toLocaleString vi_VN (Num (of_int n)) @ [dong])) [dong] []
   = intToString n"
proof (cases "n < 0")
  case True
  have "dong \<notin> set (0x2D # digitsOf (nat (- n)))"
    using digitsOf_chars(4) by (auto simp: dong_def)
  then have "replace ((0x2D # digitsOf (nat (- n))) @ [dong]) [dong] []
             = 0x2D # digitsOf (nat (- n))"
    by (rule replace_last_single)
  with True show ?thesis
    by (simp add: toLocaleString_of_int replaceAllDots_def dong_def intToString_def
        replaceAllDots_groupedDigits [unfolded replaceAllDots_def])
next
  case False
  have "dong \<notin> set (digitsOf (nat n))"
    using digitsOf_chars(4) by auto
  then have "replace (digitsOf (nat n) @ [dong]) [dong] [] = digitsOf (nat n)"
    by (rule replace_last_single)
  with False show ?thesis
    by (simp add: toLocaleString_of_int replaceAllDots_def dong_def intToString_def
        replaceAllDots_groupedDigits [unfolded replaceAllDots_def])
qed

lemma parseFloat_intToString: "parseFloat (intToString n) = number n"
  by (simp add: intToString_def parseFloat_digitsOf parseFloat_minus_digitsOf)

lemma parsePrice_toLocaleString:
  "parsePrice (toLocaleString vi_VN (Num (of_int n)) @ [dong]) = number n"
  by (simp add: parsePrice_def stripped_price parseFloat_intToString)

lemmas parse_defs =
  parsePrice_def parseFloat_def parseUnsigned_def exponentPart_def replaceAllDots_def str_def
  dong_def isWhiteSpace_def isDigit_def decimalValue_def digitValue_def Let_def
  toBinary64_Ints number_def

lemmas format_defs =
  toLocaleString_Ints groupedDigits_def digitChar_def digitsOf.simps str_def

lemma parsePrice_10000: "parsePrice (str ''10.000'' @ [dong]) = Num 10000"
  by (simp add: parse_defs)

lemma parsePrice_5000: "parsePrice (str ''5.000'' @ [dong]) = Num 5000"
  by (simp add: parse_defs)

section \<open>The cart total\<close>

subsection \<open>Exact totals within the safe integers\<close>

lemma jsadd_exact:
  assumes "a \<in> \<int>" and "b \<in> \<int>" and "\<bar>a + b\<bar> \<le> 2 ^ 53"
  shows "jsadd (Num a) (Num b) = Num (a + b)"
  using assms by (simp add: toBinary64_Ints)

lemma jsmul_exact:
  assumes "a \<in> \<int>" and "b \<in> \<int>" and "\<bar>a * b\<bar> \<le> 2 ^ 53"
  shows "jsmul (Num a) (Num b) = Num (a * b)"
  using assms by (simp add: toBinary64_Ints)

lemma foldl_total_exact:
  assumes "\<forall>item\<in>set c. parsePrice (price item) = number (amt item)
             \<and> \<bar>amt item\<bar> \<le> 2 ^ 53 \<and> \<bar>quantity item\<bar> \<le> 2 ^ 53"
    and "\<bar>a\<bar> + (\<Sum>item\<leftarrow>c. \<bar>amt item * quantity item\<bar>) \<le> 2 ^ 53"
  shows "foldl (\<lambda>sum item. jsadd sum (jsmul (parsePrice (price item)) (number (quantity item))))
           (Num (of_int a)) c
         = Num (of_int (a + (\<Sum>item\<leftarrow>c. amt item * quantity item)))"
  using assms
proof (induction c arbitrary: a)
  case Nil
  then show ?case by simp
next
  case (Cons l c)
  let ?p = "amt l * quantity l"
  from Cons.prems(1) have "parsePrice (price l) = number (amt l)"
    and "\<bar>amt l\<bar> \<le> 2 ^ 53" and "\<bar>quantity l\<bar> \<le> 2 ^ 53"
    by simp_all
  then have l: "parsePrice (price l) = Num (of_int (amt l))"
    "number (quantity l) = Num (of_int (quantity l))"
    by (simp_all only: number_exact)
  have s: "0 \<le> (\<Sum>item\<leftarrow>c. \<bar>amt item * quantity item\<bar>)"
    by (rule sum_list_nonneg) auto
  from Cons.prems(2) s have p: "\<bar>?p\<bar> \<le> 2 ^ 53" and ap: "\<bar>a + ?p\<bar> \<le> 2 ^ 53"
    by simp_all
  have m: "jsmul (Num (of_int (amt l))) (Num (of_int (quantity l))) = Num (of_int ?p)"
    using p toBinary64_exact [of ?p] by simp
  have a: "jsadd (Num (of_int a)) (Num (of_int ?p)) = Num (of_int (a + ?p))"
    using ap toBinary64_exact [of "a + ?p"] by simp
  have step: "jsadd (Num (of_int a)) (jsmul (parsePrice (price l)) (number (quantity l)))
              = Num (of_int (a + ?p))"
    by (simp only: l m a)
  have "\<bar>a + ?p\<bar> + (\<Sum>item\<leftarrow>c. \<bar>amt item * quantity item\<bar>) \<le> 2 ^ 53"
    using Cons.prems(2) by simp
  moreover from Cons.prems(1)
  have "\<forall>item\<in>set c. parsePrice (price item) = number (amt item)
             \<and> \<bar>amt item\<bar> \<le> 2 ^ 53 \<and> \<bar>quantity item\<bar> \<le> 2 ^ 53"
    by simp
  ultimately have ih: "foldl (\<lambda>sum item. jsadd sum (jsmul (parsePrice (price item))
                                                   (number (quantity item))))
           (Num (of_int (a + ?p))) c
         = Num (of_int (a + ?p + (\<Sum>item\<leftarrow>c. amt item * quantity item)))"
    by (rule Cons.IH [rotated])
  have "a + ?p + (\<Sum>item\<leftarrow>c. amt item * quantity item)
        = a + (\<Sum>item\<leftarrow>l # c. amt item * quantity item)"
    by simp
  then show ?case by (simp only: foldl_Cons step ih)
qed

text \<open>
  C3: \<open>calculateTotalPrice\<close> reads each price string by deleting the full stops and the
  currency glyph, multiplies the amount by the quantity of the line and adds the products.
  For prices written as grouped digits followed by the glyph, the string handed to
  \<^verbatim>\<open>parseFloat\<close> is the plain decimal numeral of the amount, and the result is the sum of
  amount times quantity, as long as the amounts, the quantities and the sum of the
  magnitudes of the products stay within the safe integers (at most \<open>2^53\<close>), where binary64
  arithmetic is exact.  For \<^verbatim>\<open>"10.000d"\<close> twice and \<^verbatim>\<open>"5.000d"\<close> three times the
  stripped strings are \<^verbatim>\<open>"10000"\<close> and \<^verbatim>\<open>"5000"\<close> and the total is 35000.
\<close>

theorem calculateTotalPrice_sum:
  "((\<forall>item\<in>set c. price item = toLocaleString vi_VN (Num (of_int (amt item))) @ [dong]
                     \<and> \<bar>amt item\<bar> \<le> 2 ^ 53 \<and> \<bar>quantity item\<bar> \<le> 2 ^ 53)
      \<and> (\<Sum>item\<leftarrow>c. \<bar>amt item * quantity item\<bar>) \<le> 2 ^ 53
      \<longrightarrow> calculateTotalPrice c = Num (of_int (\<Sum>item\<leftarrow>c. amt item * quantity item)))
   \<and> replace (replaceAllDots (toLocaleString vi_VN (Num (of_int n)) @ [dong])) [dong] []
       = intToString n
   \<and> (price a = str ''10.000'' @ [dong] \<and> quantity a = 2
        \<and> price b = str ''5.000'' @ [dong] \<and> quantity b = 3
      \<longrightarrow> replace (replaceAllDots (price a)) [dong] [] = str ''10000''
          \<and> replace (replaceAllDots (price b)) [dong] [] = str ''5000''
          \<and> calculateTotalPrice [a, b] = Num 35000)"
proof -
  have general: "(\<forall>item\<in>set c. price item = toLocaleString vi_VN (Num (of_int (amt item))) @ [dong]
                     \<and> \<bar>amt item\<bar> \<le> 2 ^ 53 \<and> \<bar>quantity item\<bar> \<le> 2 ^ 53)
      \<and> (\<Sum>item\<leftarrow>c. \<bar>amt item * quantity item\<bar>) \<le> 2 ^ 53
      \<longrightarrow> calculateTotalPrice c = Num (of_int (\<Sum>item\<leftarrow>c. amt item * quantity item))"
  proof
    assume h: "(\<forall>item\<in>set c. price item = toLocaleString vi_VN (Num (of_int (amt item))) @ [dong]
                     \<and> \<bar>amt item\<bar> \<le> 2 ^ 53 \<and> \<bar>quantity item\<bar> \<le> 2 ^ 53)
      \<and> (\<Sum>item\<leftarrow>c. \<bar>amt item * quantity item\<bar>) \<le> 2 ^ 53"
    then have 1: "\<forall>item\<in>set c. parsePrice (price item) = number (amt item)
             \<and> \<bar>amt item\<bar> \<le> 2 ^ 53 \<and> \<bar>quantity item\<bar> \<le> 2 ^ 53"
      by (simp add: parsePrice_toLocaleString)
    from h have 2: "\<bar>0\<bar> + (\<Sum>item\<leftarrow>c. \<bar>amt item * quantity item\<bar>) \<le> 2 ^ 53" by simp
    from foldl_total_exact [OF 1 2]
    show "calculateTotalPrice c = Num (of_int (\<Sum>item\<leftarrow>c. amt item * quantity item))"
      by (simp add: calculateTotalPrice_def)
  qed
  have strip: "replace (replaceAllDots (toLocaleString vi_VN (Num (of_int n)) @ [dong])) [dong] []
       = intToString n"
    by (rule stripped_price)
  have example: "price a = str ''10.000'' @ [dong] \<and> quantity a = 2
        \<and> price b = str ''5.000'' @ [dong] \<and> quantity b = 3
      \<longrightarrow> replace (replaceAllDots (price a)) [dong] [] = str ''10000''
          \<and> replace (replaceAllDots (price b)) [dong] [] = str ''5000''
          \<and> calculateTotalPrice [a, b] = Num 35000"
  proof
    assume h: "price a = str ''10.000'' @ [dong] \<and> quantity a = 2
        \<and> price b = str ''5.000'' @ [dong] \<and> quantity b = 3"
    then have "replace (replaceAllDots (price a)) [dong] [] = str ''10000''"
      and "replace (replaceAllDots (price b)) [dong] [] = str ''5000''"
      by (simp_all add: replaceAllDots_def str_def dong_def)
    moreover from h have "calculateTotalPrice [a, b] = Num 35000"
      by (simp add: calculateTotalPrice_def parsePrice_10000 parsePrice_5000 number_def
          toBinary64_Ints)
    ultimately show "replace (replaceAllDots (price a)) [dong] [] = str ''10000''
          \<and> replace (replaceAllDots (price b)) [dong] [] = str ''5000''
          \<and> calculateTotalPrice [a, b] = Num 35000"
      by simp
  qed
  show ?thesis by (rule conjI [OF general conjI [OF strip example]])
qed

theorem calculateTotalPrice_sum_witness:
  "price (exampleCart ! 0) = toLocaleString vi_VN (Num (of_int 10000)) @ [dong]
   \<and> price (exampleCart ! 1) = toLocaleString vi_VN (Num (of_int 5000)) @ [dong]
   \<and> price (exampleCart ! 0) = str ''10.000'' @ [dong] \<and> quantity (exampleCart ! 0) = 2
   \<and> price (exampleCart ! 1) = str ''5.000'' @ [dong] \<and> quantity (exampleCart ! 1) = 3
   \<and> replace (replaceAllDots (price (exampleCart ! 0))) [dong] [] = str ''10000''
   \<and> calculateTotalPrice exampleCart = Num 35000
   \<and> calculateTotalPrice [exampleCart ! 0, exampleCart ! 1] = Num 35000"
proof -
  let ?amt = "\<lambda>item. if itemId item = str ''1'' then 10000 else (5000 :: int)"
  have p: "price (exampleCart ! 0) = toLocaleString vi_VN (Num (of_int 10000)) @ [dong]
           \<and> price (exampleCart ! 1) = toLocaleString vi_VN (Num (of_int 5000)) @ [dong]"
    by (simp add: exampleCart_def exampleLine_def format_defs)
  have h: "(\<forall>item\<in>set exampleCart.
              price item = toLocaleString vi_VN (Num (of_int (?amt item))) @ [dong]
              \<and> \<bar>?amt item\<bar> \<le> 2 ^ 53 \<and> \<bar>quantity item\<bar> \<le> 2 ^ 53)
           \<and> (\<Sum>item\<leftarrow>exampleCart. \<bar>?amt item * quantity item\<bar>) \<le> 2 ^ 53"
    by (simp add: exampleCart_def exampleLine_def format_defs)
  have g: "price (exampleCart ! 0) = str ''10.000'' @ [dong] \<and> quantity (exampleCart ! 0) = 2
   \<and> price (exampleCart ! 1) = str ''5.000'' @ [dong] \<and> quantity (exampleCart ! 1) = 3"
    by (simp add: exampleCart_def exampleLine_def)
  have s: "(\<Sum>item\<leftarrow>exampleCart. ?amt item * quantity item) = 35000"
    by (simp add: exampleCart_def exampleLine_def str_def)
  from h g s calculateTotalPrice_sum [of exampleCart ?amt 10000 "exampleCart ! 0" "exampleCart ! 1"]
  have "calculateTotalPrice exampleCart = Num 35000
        \<and> replace (replaceAllDots (price (exampleCart ! 0))) [dong] [] = str ''10000''
        \<and> calculateTotalPrice [exampleCart ! 0, exampleCart ! 1] = Num 35000"
    by simp
  with p g show ?thesis by simp
qed

subsection \<open>Monotonicity in a quantity\<close>

lemma jsmul_mono:
  assumes "\<not> jslt p (Num 0)" and "\<not> jslt y x"
  shows "\<not> jslt (jsmul p y) (jsmul p x)"
proof (cases p)
  case (Num r)
  with assms(1) have r: "0 \<le> r" by simp
  show ?thesis
  proof (cases x; cases y)
    fix v w
    assume xy: "x = Num v" "y = Num w"
    with assms(2) have "v \<le> w" by simp
    with r have "r * v \<le> r * w" by (rule mult_left_mono [rotated])
    then show ?thesis unfolding Num xy by (simp add: toBinary64_mono)
  qed (use assms(2) r Num in auto)
next
  case PosInf
  show ?thesis by (cases x; cases y) (use assms(2) PosInf in auto)
qed (use assms(1) in simp_all)

lemma number_mono: "q \<le> q' \<Longrightarrow> \<not> jslt (number q') (number q)"
  unfolding number_def by (rule toBinary64_mono) simp

lemma foldl_total_mono:
  assumes "\<not> jslt b a"
  shows "\<not> jslt (foldl (\<lambda>sum item. jsadd sum (jsmul (parsePrice (price item))
                                             (number (quantity item)))) b c)
                (foldl (\<lambda>sum item. jsadd sum (jsmul (parsePrice (price item))
                                             (number (quantity item)))) a c)"
  using assms
proof (induction c arbitrary: a b)
  case Nil
  then show ?case by simp
next
  case (Cons l c)
  from Cons.prems have "\<not> jslt (jsadd b (jsmul (parsePrice (price l)) (number (quantity l))))
                              (jsadd a (jsmul (parsePrice (price l)) (number (quantity l))))"
    by (rule jsadd_mono_left)
  from Cons.IH [OF this] show ?case by simp
qed

text \<open>
  C6, as stated, at a cart of one line priced \<^verbatim>\<open>"-10.000d"\<close>: raising its quantity from 1 to
  2 lowers the total from -10000 to -20000.
\<close>

theorem calculateTotalPrice_negative_price:
  "jslt (calculateTotalPrice [exampleLine (str ''1'') (str ''-10.000'' @ [dong]) 2])
        (calculateTotalPrice [exampleLine (str ''1'') (str ''-10.000'' @ [dong]) 1])"
  by (simp add: calculateTotalPrice_def exampleLine_def parse_defs)

text \<open>
  C6 (amended): for every cart and every line in it whose price does not parse to a negative
  amount, increasing the quantity of that line never decreases the result of
  \<open>calculateTotalPrice\<close>: the new total is not less than the old one, and when both are
  finite the new one is at least as large.
\<close>

theorem calculateTotalPrice_mono:
  assumes "i < length c" and "quantity (c ! i) \<le> q'"
    and "\<not> jslt (parsePrice (price (c ! i))) (Num 0)"
  shows "\<not> jslt (calculateTotalPrice (c[i := (c ! i)\<lparr>quantity := q'\<rparr>])) (calculateTotalPrice c)
    \<and> (\<forall>t t'. calculateTotalPrice c = Num t
               \<and> calculateTotalPrice (c[i := (c ! i)\<lparr>quantity := q'\<rparr>]) = Num t'
             \<longrightarrow> t \<le> t')"
proof -
  let ?f = "\<lambda>sum item. jsadd sum (jsmul (parsePrice (price item)) (number (quantity item)))"
  let ?c' = "c[i := (c ! i)\<lparr>quantity := q'\<rparr>]"
  let ?a = "foldl ?f (Num 0) (take i c)"
  have c: "c = take i c @ (c ! i) # drop (Suc i) c"
    using assms(1) by (rule id_take_nth_drop)
  have c': "?c' = take i c @ ((c ! i)\<lparr>quantity := q'\<rparr>) # drop (Suc i) c"
    using assms(1) by (rule upd_conv_take_nth_drop)
  have old: "calculateTotalPrice c = foldl ?f (?f ?a (c ! i)) (drop (Suc i) c)"
    by (subst c) (simp add: calculateTotalPrice_def)
  have new: "calculateTotalPrice ?c'
             = foldl ?f (?f ?a ((c ! i)\<lparr>quantity := q'\<rparr>)) (drop (Suc i) c)"
    by (subst c') (simp add: calculateTotalPrice_def)
  have "\<not> jslt (jsmul (parsePrice (price (c ! i))) (number q'))
               (jsmul (parsePrice (price (c ! i))) (number (quantity (c ! i))))"
    using assms(3) number_mono [OF assms(2)] by (rule jsmul_mono)
  then have "\<not> jslt (?f ?a ((c ! i)\<lparr>quantity := q'\<rparr>)) (?f ?a (c ! i))"
    using jsadd_mono_right by simp
  then have 1: "\<not> jslt (calculateTotalPrice ?c') (calculateTotalPrice c)"
    unfolding old new by (rule foldl_total_mono)
  then have "\<forall>t t'. calculateTotalPrice c = Num t \<and> calculateTotalPrice ?c' = Num t'
             \<longrightarrow> t \<le> t'"
    by auto
  with 1 show ?thesis by blast
qed

theorem calculateTotalPrice_mono_witness:
  "1 < length exampleCart \<and> quantity (exampleCart ! 1) \<le> 4
   \<and> \<not> jslt (parsePrice (price (exampleCart ! 1))) (Num 0)
   \<and> calculateTotalPrice exampleCart = Num 35000
   \<and> \<not> jslt (calculateTotalPrice (exampleCart[1 := (exampleCart ! 1)\<lparr>quantity := 4\<rparr>]))
           (Num 35000)"
proof -
  have h1: "1 < length exampleCart" by (simp add: exampleCart_def)
  have h2: "quantity (exampleCart ! 1) \<le> 4" by (simp add: exampleCart_def exampleLine_def)
  have h3: "\<not> jslt (parsePrice (price (exampleCart ! 1))) (Num 0)"
    by (simp add: exampleCart_def exampleLine_def parsePrice_5000)
  have t: "calculateTotalPrice exampleCart = Num 35000"
    by (simp add: calculateTotalPrice_def exampleCart_def exampleLine_def
        parsePrice_10000 parsePrice_5000 number_def toBinary64_Ints)
  from calculateTotalPrice_mono [OF h1 h2 h3] h1 h2 h3 t show ?thesis by simp
qed

section \<open>Removing a line\<close>

text \<open>
  C4: setting the quantity of a line to 0 gives a cart with no line of that id, and the
  other lines are the same, in the same order.
\<close>

theorem updatedCart_zero:
  "(\<forall>item\<in>set (updatedCart c iid 0). itemId item \<noteq> iid)
   \<and> filter (\<lambda>item. itemId item \<noteq> iid) (updatedCart c iid 0)
       = filter (\<lambda>item. itemId item \<noteq> iid) c"
  by (simp add: updatedCart_def)

theorem updatedCart_zero_witness:
  "exampleLine (str ''2'') (str ''5.000'' @ [dong]) 3 \<in> set (updatedCart exampleCart (str ''1'') 0)
   \<and> itemId (exampleLine (str ''2'') (str ''5.000'' @ [dong]) 3) \<noteq> str ''1''
   \<and> filter (\<lambda>item. itemId item \<noteq> str ''1'') (updatedCart exampleCart (str ''1'') 0)
       = [exampleLine (str ''2'') (str ''5.000'' @ [dong]) 3]"
proof -
  let ?l = "exampleLine (str ''2'') (str ''5.000'' @ [dong]) 3"
  let ?c = "updatedCart exampleCart (str ''1'') 0"
  from updatedCart_zero [of exampleCart "str ''1''"]
  have f: "filter (\<lambda>item. itemId item \<noteq> str ''1'') ?c = [?l]"
    by (simp add: exampleCart_def exampleLine_def str_def)
  then have "?l \<in> set (filter (\<lambda>item. itemId item \<noteq> str ''1'') ?c)" by simp
  then have m: "?l \<in> set ?c" by simp
  with updatedCart_zero [of exampleCart "str ''1''"] have "itemId ?l \<noteq> str ''1''" by blast
  with m f show ?thesis by simp
qed

section \<open>Placing an order\<close>

subsection \<open>The address test\<close>

lemma trim_empty_iff: "trim s = [] \<longleftrightarrow> (\<forall>c\<in>set s. isWhiteSpace c)"
proof
  assume "trim s = []"
  then have "dropWhile isWhiteSpace (rev (dropWhile isWhiteSpace s)) = []"
    by (simp add: trim_def)
  then have all: "\<forall>c\<in>set (dropWhile isWhiteSpace s). isWhiteSpace c"
    by (simp add: dropWhile_eq_Nil_conv)
  have "dropWhile isWhiteSpace s = []"
  proof (rule ccontr)
    assume ne: "dropWhile isWhiteSpace s \<noteq> []"
    then have "\<not> isWhiteSpace (hd (dropWhile isWhiteSpace s))" by (rule hd_dropWhile)
    moreover from ne have "hd (dropWhile isWhiteSpace s) \<in> set (dropWhile isWhiteSpace s)"
      by (rule hd_in_set)
    ultimately show False using all by blast
  qed
  then show "\<forall>c\<in>set s. isWhiteSpace c" by (simp only: dropWhile_eq_Nil_conv)
next
  assume "\<forall>c\<in>set s. isWhiteSpace c"
  then have d: "dropWhile isWhiteSpace s = []" by (simp only: dropWhile_eq_Nil_conv)
  show "trim s = []" unfolding trim_def d by simp
qed

lemma trim_nonempty_iff: "trim s \<noteq> [] \<longleftrightarrow> (\<exists>c\<in>set s. \<not> isWhiteSpace c)"
  by (simp add: trim_empty_iff)

subsection \<open>The five outcomes of \<open>handlePlaceOrder\<close>\<close>

lemma newOrder_isLoading: "newOrder e (s\<lparr>isLoading := b\<rparr>) uid info = newOrder e s uid info"
  by (simp add: newOrder_def)

lemma handlePlaceOrder_blank:
  assumes "trim (address s) = []"
  shows "handlePlaceOrder e (s, w) = (s, w\<lparr>alerts := alerts w @ [AddressRequired]\<rparr>)"
  using assms by (simp add: handlePlaceOrder_def)

lemma handlePlaceOrder_no_session:
  assumes "trim (address s) \<noteq> []" and "getUserId e = None \<or> userInfo s = None"
  shows "handlePlaceOrder e (s, w)
         = (s\<lparr>isLoading := True\<rparr>, w\<lparr>pushed := pushed w @ [DangNhap]\<rparr>)"
  using assms by (auto simp: handlePlaceOrder_def Let_def split: option.splits)

lemma handlePlaceOrder_post_fails:
  assumes "trim (address s) \<noteq> []" and "getUserId e = Some uid" and "userInfo s = Some info"
    and "\<not> requestOk e (PostOrder (newOrder e s uid info))"
  shows "handlePlaceOrder e (s, w)
         = (s\<lparr>isLoading := False\<rparr>,
            w\<lparr>sent := sent w @ [PostOrder (newOrder e s uid info)],
              alerts := alerts w @ [OrderFailed]\<rparr>)"
  using assms by (simp add: handlePlaceOrder_def Let_def axios_def newOrder_isLoading)

lemma handlePlaceOrder_patch_fails:
  assumes "trim (address s) \<noteq> []" and "getUserId e = Some uid" and "userInfo s = Some info"
    and "requestOk e (PostOrder (newOrder e s uid info))"
    and "\<not> requestOk e (PatchUserCart uid []) \<or> dbUsers w uid = None"
  shows "handlePlaceOrder e (s, w)
         = (s\<lparr>isLoading := False\<rparr>,
            w\<lparr>dbOrders := dbOrders w @ [newOrder e s uid info],
              sent := sent w @ [PostOrder (newOrder e s uid info), PatchUserCart uid []],
              alerts := alerts w @ [OrderFailed]\<rparr>)"
  using assms by (auto simp: handlePlaceOrder_def Let_def axios_def newOrder_isLoading)

lemma handlePlaceOrder_success:
  assumes "trim (address s) \<noteq> []" and "getUserId e = Some uid" and "userInfo s = Some info"
    and "requestOk e (PostOrder (newOrder e s uid info))"
    and "requestOk e (PatchUserCart uid [])" and "dbUsers w uid = Some u"
  shows "handlePlaceOrder e (s, w)
         = (s\<lparr>isLoading := False\<rparr>,
            w\<lparr>dbUsers := (dbUsers w)(uid \<mapsto> u\<lparr>cart := Some []\<rparr>),
              dbOrders := dbOrders w @ [newOrder e s uid info],
              sent := sent w @ [PostOrder (newOrder e s uid info), PatchUserCart uid []],
              alerts := alerts w @ [OrderPlaced]\<rparr>)"
  using assms by (simp add: handlePlaceOrder_def Let_def axios_def newOrder_isLoading)

subsection \<open>Reloading the cart\<close>

lemma fetchCartData_loaded:
  assumes "getUserId e = Some uid" and "requestOk e (GetUser uid)" and "dbUsers w uid = Some u"
  shows "cartItems (fst (fetchCartData e (s, w))) = persistedCart w uid"
    and "snd (fetchCartData e (s, w)) = w\<lparr>sent := sent w @ [GetUser uid]\<rparr>"
  using assms by (simp_all add: fetchCartData_def axios_def Let_def persistedCart_def)

lemma fetchCartData_store:
  "dbUsers (snd (fetchCartData e (s, w))) = dbUsers w"
  "dbOrders (snd (fetchCartData e (s, w))) = dbOrders w"
  by (auto simp: fetchCartData_def axios_def Let_def
      split: option.splits response.splits prod.splits)

subsection \<open>Facts about the example data\<close>

lemma example_address: "trim (str ''123 Main'') \<noteq> []"
  by (simp add: trim_nonempty_iff str_def isWhiteSpace_def)

lemma example_session: "getUserId (exampleEnv loc ok) = Some (str ''u1'')"
  by (simp add: getUserId_def exampleEnv_def str_def)

lemma example_checkout:
  "address exampleCheckout = str ''123 Main''" "userInfo exampleCheckout = Some exampleInfo"
  "totalPrice exampleCheckout = Num 35000" "shippingFee exampleCheckout = Num 30000"
  "cartItems exampleCheckout = exampleCart"
  by (simp_all add: exampleCheckout_def initialCheckout_def)

lemma example_world:
  "dbUsers exampleWorld (str ''u1'') = Some exampleUser" "dbOrders exampleWorld = []"
  "alerts exampleWorld = []" "sent exampleWorld = []"
  "persistedCart exampleWorld (str ''u1'') = exampleCart"
  by (simp_all add: exampleWorld_def persistedCart_def exampleUser_def)

subsection \<open>The required-field gate\<close>

text \<open>
  C7: \<open>handlePlaceOrder\<close> raises the address notice exactly when the address is empty or
  consists of white space only; in that case it returns before any request is sent, so no
  order is created and the stored cart and the screen are unchanged.  It is the only test
  of an input field: with any other address and a session, the order is posted whatever
  the cart, the payment method and the profile hold.
\<close>

theorem handlePlaceOrder_address_gate:
  "(alerts (snd (handlePlaceOrder e (s, w))) = alerts w @ [AddressRequired]
      \<longleftrightarrow> (\<forall>c\<in>set (address s). isWhiteSpace c))
   \<and> ((\<forall>c\<in>set (address s). isWhiteSpace c)
        \<longrightarrow> fst (handlePlaceOrder e (s, w)) = s
            \<and> sent (snd (handlePlaceOrder e (s, w))) = sent w
            \<and> dbOrders (snd (handlePlaceOrder e (s, w))) = dbOrders w
            \<and> dbUsers (snd (handlePlaceOrder e (s, w))) = dbUsers w
            \<and> pushed (snd (handlePlaceOrder e (s, w))) = pushed w)
   \<and> ((\<exists>c\<in>set (address s). \<not> isWhiteSpace c) \<and> getUserId e = Some uid \<and> userInfo s = Some info
        \<longrightarrow> (\<exists>rest. sent (snd (handlePlaceOrder e (s, w)))
                     = sent w @ PostOrder (newOrder e s uid info) # rest))"
proof -
  have gate: "alerts (snd (handlePlaceOrder e (s, w))) = alerts w @ [AddressRequired]
      \<longleftrightarrow> (\<forall>c\<in>set (address s). isWhiteSpace c)"
  proof (cases "trim (address s) = []")
    case True
    then show ?thesis using handlePlaceOrder_blank [OF True, of e w] by (simp add: trim_empty_iff)
  next
    case False
    have "alerts (snd (handlePlaceOrder e (s, w))) \<noteq> alerts w @ [AddressRequired]"
    proof (cases "getUserId e = None \<or> userInfo s = None")
      case True
      from handlePlaceOrder_no_session [OF False True, of w] show ?thesis by simp
    next
      case session: False
      then obtain uid' info' where u: "getUserId e = Some uid'" and i: "userInfo s = Some info'"
        by auto
      show ?thesis
      proof (cases "requestOk e (PostOrder (newOrder e s uid' info'))")
        case post: False
        from handlePlaceOrder_post_fails [OF False u i post, of w] show ?thesis by simp
      next
        case post: True
        show ?thesis
        proof (cases "\<not> requestOk e (PatchUserCart uid' []) \<or> dbUsers w uid' = None")
          case True
          from handlePlaceOrder_patch_fails [OF False u i post True] show ?thesis by simp
        next
          case False
          then obtain u' where p: "requestOk e (PatchUserCart uid' [])"
            and d: "dbUsers w uid' = Some u'" by auto
          from handlePlaceOrder_success [OF \<open>trim (address s) \<noteq> []\<close> u i post p d]
          show ?thesis by simp
        qed
      qed
    qed
    with False show ?thesis by (simp add: trim_empty_iff)
  qed
  have blocked: "(\<forall>c\<in>set (address s). isWhiteSpace c)
        \<longrightarrow> fst (handlePlaceOrder e (s, w)) = s
            \<and> sent (snd (handlePlaceOrder e (s, w))) = sent w
            \<and> dbOrders (snd (handlePlaceOrder e (s, w))) = dbOrders w
            \<and> dbUsers (snd (handlePlaceOrder e (s, w))) = dbUsers w
            \<and> pushed (snd (handlePlaceOrder e (s, w))) = pushed w"
  proof
    assume "\<forall>c\<in>set (address s). isWhiteSpace c"
    then have "trim (address s) = []" by (simp add: trim_empty_iff)
    from handlePlaceOrder_blank [OF this, of e w]
    show "fst (handlePlaceOrder e (s, w)) = s
            \<and> sent (snd (handlePlaceOrder e (s, w))) = sent w
            \<and> dbOrders (snd (handlePlaceOrder e (s, w))) = dbOrders w
            \<and> dbUsers (snd (handlePlaceOrder e (s, w))) = dbUsers w
            \<and> pushed (snd (handlePlaceOrder e (s, w))) = pushed w"
      by simp
  qed
  have sole: "(\<exists>c\<in>set (address s). \<not> isWhiteSpace c) \<and> getUserId e = Some uid
        \<and> userInfo s = Some info
        \<longrightarrow> (\<exists>rest. sent (snd (handlePlaceOrder e (s, w)))
                     = sent w @ PostOrder (newOrder e s uid info) # rest)"
  proof
    assume a: "(\<exists>c\<in>set (address s). \<not> isWhiteSpace c) \<and> getUserId e = Some uid
        \<and> userInfo s = Some info"
    then have t: "trim (address s) \<noteq> []" by (simp add: trim_nonempty_iff)
    from a have u: "getUserId e = Some uid" and i: "userInfo s = Some info" by simp_all
    show "\<exists>rest. sent (snd (handlePlaceOrder e (s, w)))
                     = sent w @ PostOrder (newOrder e s uid info) # rest"
    proof (cases "requestOk e (PostOrder (newOrder e s uid info))")
      case post: False
      from handlePlaceOrder_post_fails [OF t u i post, of w] show ?thesis by simp
    next
      case post: True
      show ?thesis
      proof (cases "\<not> requestOk e (PatchUserCart uid []) \<or> dbUsers w uid = None")
        case True
        from handlePlaceOrder_patch_fails [OF t u i post True] show ?thesis by simp
      next
        case False
        then obtain u' where p: "requestOk e (PatchUserCart uid [])"
          and d: "dbUsers w uid = Some u'" by auto
        from handlePlaceOrder_success [OF t u i post p d] show ?thesis by simp
      qed
    qed
  qed
  show ?thesis by (rule conjI [OF gate conjI [OF blocked sole]])
qed

theorem handlePlaceOrder_address_gate_witness:
  "list_all isWhiteSpace (str ''  '')
   \<and> handlePlaceOrder (exampleEnv vi_VN (\<lambda>r. True))
        (exampleCheckout\<lparr>address := str ''  ''\<rparr>, exampleWorld)
      = (exampleCheckout\<lparr>address := str ''  ''\<rparr>, exampleWorld\<lparr>alerts := [AddressRequired]\<rparr>)
   \<and> \<not> list_all isWhiteSpace (address exampleCheckout)
   \<and> getUserId (exampleEnv vi_VN (\<lambda>r. True)) = Some (str ''u1'')
   \<and> userInfo exampleCheckout = Some exampleInfo
   \<and> alerts (snd (handlePlaceOrder (exampleEnv vi_VN (\<lambda>r. True)) (exampleCheckout, exampleWorld)))
       \<noteq> [AddressRequired]
   \<and> hd (sent (snd (handlePlaceOrder (exampleEnv vi_VN (\<lambda>r. True))
                      (exampleCheckout, exampleWorld))))
       = PostOrder (newOrder (exampleEnv vi_VN (\<lambda>r. True)) exampleCheckout (str ''u1'')
                      exampleInfo)"
proof -
  let ?e = "exampleEnv vi_VN (\<lambda>r. True)"
  let ?b = "exampleCheckout\<lparr>address := str ''  ''\<rparr>"
  have blank: "list_all isWhiteSpace (str ''  '')" by (simp add: str_def isWhiteSpace_def)
  then have b: "\<forall>c\<in>set (address ?b). isWhiteSpace c" by (simp add: list_all_iff)
  have nonblank: "\<not> list_all isWhiteSpace (address exampleCheckout)"
    by (simp add: example_checkout str_def isWhiteSpace_def)
  then have n: "\<exists>c\<in>set (address exampleCheckout). \<not> isWhiteSpace c"
    by (simp add: list_all_iff)
  from handlePlaceOrder_address_gate [of ?e ?b exampleWorld] b
  have 1: "handlePlaceOrder ?e (?b, exampleWorld) = (?b, exampleWorld\<lparr>alerts := [AddressRequired]\<rparr>)"
    by (cases "handlePlaceOrder ?e (?b, exampleWorld)") (simp add: example_world)
  from handlePlaceOrder_address_gate [of ?e exampleCheckout exampleWorld "str ''u1''" exampleInfo]
    n example_session [of vi_VN "\<lambda>r. True"] example_checkout(2)
  have 2: "alerts (snd (handlePlaceOrder ?e (exampleCheckout, exampleWorld))) \<noteq> [AddressRequired]"
    and 3: "hd (sent (snd (handlePlaceOrder ?e (exampleCheckout, exampleWorld))))
            = PostOrder (newOrder ?e exampleCheckout (str ''u1'') exampleInfo)"
    by (auto simp: example_world)
  from blank nonblank 1 2 3 example_session [of vi_VN "\<lambda>r. True"] example_checkout(2)
  show ?thesis by simp
qed

subsection \<open>A failed order creation\<close>

text \<open>
  C1: when the request \<^verbatim>\<open>POST /orders\<close> fails, it is the only request sent (the cart is not
  cleared), the stored users and their carts and the stored orders are as before, the cart
  on the screen is unchanged, and the failure notice is shown.
\<close>

theorem handlePlaceOrder_post_failure:
  assumes "trim (address s) \<noteq> []" and "getUserId e = Some uid" and "userInfo s = Some info"
    and "\<not> requestOk e (PostOrder (newOrder e s uid info))"
  shows "sent (snd (handlePlaceOrder e (s, w))) = sent w @ [PostOrder (newOrder e s uid info)]
    \<and> dbUsers (snd (handlePlaceOrder e (s, w))) = dbUsers w
    \<and> persistedCart (snd (handlePlaceOrder e (s, w))) uid = persistedCart w uid
    \<and> dbOrders (snd (handlePlaceOrder e (s, w))) = dbOrders w
    \<and> alerts (snd (handlePlaceOrder e (s, w))) = alerts w @ [OrderFailed]
    \<and> cartItems (fst (handlePlaceOrder e (s, w))) = cartItems s"
  using handlePlaceOrder_post_fails [OF assms, of w] by (simp add: persistedCart_def)

theorem handlePlaceOrder_post_failure_witness:
  "trim (address exampleCheckout) \<noteq> []
   \<and> getUserId (exampleEnv vi_VN (\<lambda>r. False)) = Some (str ''u1'')
   \<and> userInfo exampleCheckout = Some exampleInfo
   \<and> \<not> requestOk (exampleEnv vi_VN (\<lambda>r. False))
         (PostOrder (newOrder (exampleEnv vi_VN (\<lambda>r. False)) exampleCheckout (str ''u1'') exampleInfo))
   \<and> persistedCart (snd (handlePlaceOrder (exampleEnv vi_VN (\<lambda>r. False))
                            (exampleCheckout, exampleWorld))) (str ''u1'') = exampleCart
   \<and> alerts (snd (handlePlaceOrder (exampleEnv vi_VN (\<lambda>r. False))
                     (exampleCheckout, exampleWorld))) = [OrderFailed]
   \<and> dbOrders (snd (handlePlaceOrder (exampleEnv vi_VN (\<lambda>r. False))
                     (exampleCheckout, exampleWorld))) = []"
proof -
  let ?e = "exampleEnv vi_VN (\<lambda>r. False)"
  have h1: "trim (address exampleCheckout) \<noteq> []"
    by (simp add: example_checkout example_address)
  have h2: "getUserId ?e = Some (str ''u1'')" by (rule example_session)
  have h3: "userInfo exampleCheckout = Some exampleInfo" by (rule example_checkout)
  have h4: "\<not> requestOk ?e (PostOrder (newOrder ?e exampleCheckout (str ''u1'') exampleInfo))"
    by (simp add: exampleEnv_def)
  have w: "persistedCart exampleWorld (str ''u1'') = exampleCart"
    "alerts exampleWorld = []" "dbOrders exampleWorld = []"
    by (simp_all add: persistedCart_def exampleWorld_def exampleUser_def)
  from handlePlaceOrder_post_failure [OF h1 h2 h3 h4, of exampleWorld] h1 h2 h3 h4 w
  show ?thesis by simp
qed

subsection \<open>The amount of a placed order\<close>

lemma finalAmount_65000:
  assumes "totalPrice s = Num 35000" and "shippingFee s = Num 30000"
  shows "finalAmount (newOrder e s uid info)
         = toLocaleString (deviceLocale e) (Num 65000) @ [dong]"
  using assms by (simp add: newOrder_def toBinary64_Ints)

lemma toLocaleString_65000:
  "toLocaleString vi_VN (Num 65000) = str ''65.000''"
  "toLocaleString en_US (Num 65000) = str ''65,000''"
  by (simp_all add: format_defs)

text \<open>
  C2, as stated, on a device whose default locale is \<open>en_US\<close>: the order is placed with
  address \<^verbatim>\<open>"123 Main"\<close>, subtotal 35000 and shipping fee 30000, and its \<open>finalAmount\<close> is
  \<^verbatim>\<open>"65,000d"\<close>, grouped with a comma.
\<close>

theorem handlePlaceOrder_final_amount_en_US:
  "address exampleCheckout = str ''123 Main''
   \<and> totalPrice exampleCheckout = Num 35000 \<and> shippingFee exampleCheckout = Num 30000
   \<and> alerts (snd (handlePlaceOrder (exampleEnv en_US (\<lambda>r. True))
                     (exampleCheckout, exampleWorld))) = [OrderPlaced]
   \<and> map finalAmount (dbOrders (snd (handlePlaceOrder (exampleEnv en_US (\<lambda>r. True))
                                       (exampleCheckout, exampleWorld))))
       = [str ''65,000'' @ [dong]]
   \<and> str ''65,000'' @ [dong] \<noteq> str ''65.000'' @ [dong]"
proof -
  let ?e = "exampleEnv en_US (\<lambda>r. True)"
  have t: "trim (address exampleCheckout) \<noteq> []"
    by (simp add: example_checkout example_address)
  have ok: "requestOk ?e r" for r by (simp add: exampleEnv_def)
  have l: "deviceLocale ?e = en_US" by (simp add: exampleEnv_def)
  note r = handlePlaceOrder_success
    [OF t example_session example_checkout(2) ok ok example_world(1)]
  have "finalAmount (newOrder ?e exampleCheckout (str ''u1'') exampleInfo)
        = str ''65,000'' @ [dong]"
    using finalAmount_65000 [OF example_checkout(3,4)] l by (simp add: toLocaleString_65000)
  moreover have "str ''65,000'' @ [dong] \<noteq> str ''65.000'' @ [dong]"
    by (simp add: str_def)
  ultimately show ?thesis by (simp add: r example_checkout example_world)
qed

text \<open>
  C2 (amended): on a device whose default locale is \<open>vi_VN\<close>, a successful placement (both
  requests succeed) with address \<^verbatim>\<open>"123 Main"\<close>, subtotal 35000 and shipping fee 30000
  stores an order whose \<open>finalAmount\<close> is \<^verbatim>\<open>"65.000d"\<close>, the stored cart of the user is
  empty, and a following \<open>fetchCartData\<close> shows the empty cart.
\<close>

theorem handlePlaceOrder_final_amount:
  assumes "deviceLocale e = vi_VN" and "address s = str ''123 Main''"
    and "totalPrice s = Num 35000" and "shippingFee s = Num 30000"
    and "getUserId e = Some uid" and "userInfo s = Some info"
    and "requestOk e (PostOrder (newOrder e s uid info))"
    and "requestOk e (PatchUserCart uid [])" and "dbUsers w uid = Some u"
    and "requestOk e (GetUser uid)"
  shows "dbOrders (snd (handlePlaceOrder e (s, w))) = dbOrders w @ [newOrder e s uid info]
    \<and> finalAmount (newOrder e s uid info) = str ''65.000'' @ [dong]
    \<and> alerts (snd (handlePlaceOrder e (s, w))) = alerts w @ [OrderPlaced]
    \<and> persistedCart (snd (handlePlaceOrder e (s, w))) uid = []
    \<and> cartItems (fst (fetchCartData e (c, snd (handlePlaceOrder e (s, w))))) = []"
proof -
  have t: "trim (address s) \<noteq> []" using assms(2) example_address by simp
  note r = handlePlaceOrder_success [OF t assms(5,6,7,8,9)]
  have p: "persistedCart (snd (handlePlaceOrder e (s, w))) uid = []"
    by (simp add: r persistedCart_def)
  have "dbUsers (snd (handlePlaceOrder e (s, w))) uid = Some (u\<lparr>cart := Some []\<rparr>)"
    by (simp add: r)
  from fetchCartData_loaded(1) [OF assms(5) assms(10) this] p
  have "cartItems (fst (fetchCartData e (c, snd (handlePlaceOrder e (s, w))))) = []" by simp
  moreover have "finalAmount (newOrder e s uid info) = str ''65.000'' @ [dong]"
    using finalAmount_65000 [OF assms(3,4)] assms(1) by (simp add: toLocaleString_65000)
  ultimately show ?thesis using p by (simp add: r)
qed

theorem handlePlaceOrder_final_amount_witness:
  "deviceLocale (exampleEnv vi_VN (\<lambda>r. True)) = vi_VN
   \<and> address exampleCheckout = str ''123 Main''
   \<and> totalPrice exampleCheckout = Num 35000 \<and> shippingFee exampleCheckout = Num 30000
   \<and> getUserId (exampleEnv vi_VN (\<lambda>r. True)) = Some (str ''u1'')
   \<and> userInfo exampleCheckout = Some exampleInfo
   \<and> dbUsers exampleWorld (str ''u1'') = Some exampleUser
   \<and> persistedCart exampleWorld (str ''u1'') = exampleCart
   \<and> map finalAmount (dbOrders (snd (handlePlaceOrder (exampleEnv vi_VN (\<lambda>r. True))
                                       (exampleCheckout, exampleWorld))))
       = [str ''65.000'' @ [dong]]
   \<and> cartItems (fst (fetchCartData (exampleEnv vi_VN (\<lambda>r. True))
        (\<lparr>cartItems = exampleCart, userInfo = None, totalPrice = Num 0, isLoading = True\<rparr>,
         snd (handlePlaceOrder (exampleEnv vi_VN (\<lambda>r. True)) (exampleCheckout, exampleWorld)))))
       = []"
proof -
  let ?e = "exampleEnv vi_VN (\<lambda>r. True)"
  have h1: "deviceLocale ?e = vi_VN" by (simp add: exampleEnv_def)
  have ok: "requestOk ?e r" for r by (simp add: exampleEnv_def)
  from handlePlaceOrder_final_amount
    [OF h1 example_checkout(1,3,4) example_session example_checkout(2) ok ok example_world(1) ok,
      of "\<lparr>cartItems = exampleCart, userInfo = None, totalPrice = Num 0, isLoading = True\<rparr>"]
    h1 example_checkout example_session [of vi_VN "\<lambda>r. True"] example_world
  show ?thesis by simp
qed

section \<open>The quantity invariant of the Cart screen\<close>

lemma updatedCart_positive:
  assumes "\<forall>x\<in>set c. 1 \<le> quantity x" and "0 \<le> q"
  shows "\<forall>x\<in>set (updatedCart c iid q). 1 \<le> quantity x"
  using assms by (auto simp: updatedCart_def)

lemma fetchCartData_cartItems:
  "cartItems (fst (fetchCartData e (s, w))) = cartItems s
   \<or> (\<exists>uid. getUserId e = Some uid
          \<and> cartItems (fst (fetchCartData e (s, w))) = persistedCart w uid)"
  by (auto simp: fetchCartData_def axios_def Let_def persistedCart_def
      split: option.splits response.splits prod.splits)

lemma updateQuantity_store:
  "dbUsers (snd (updateQuantity e iid q (s, w))) = dbUsers w
   \<or> (\<exists>uid u. getUserId e = Some uid \<and> dbUsers w uid = Some u
         \<and> requestOk e (PatchUserCart uid (updatedCart (cartItems s) iid q))
         \<and> dbUsers (snd (updateQuantity e iid q (s, w)))
             = (dbUsers w)(uid \<mapsto> u\<lparr>cart := Some (updatedCart (cartItems s) iid q)\<rparr>))"
  by (auto simp: updateQuantity_def axios_def Let_def fetchCartData_store
      split: option.splits)

lemma updateQuantity_written:
  assumes "getUserId e = Some uid" and "dbUsers w uid = Some u"
    and "requestOk e (PatchUserCart uid (updatedCart (cartItems s) iid q))"
  shows "persistedCart (snd (updateQuantity e iid q (s, w))) uid
         = updatedCart (cartItems s) iid q"
  using assms
  by (simp add: updateQuantity_def axios_def Let_def fetchCartData_store persistedCart_def)

lemma updateQuantity_persisted:
  "persistedCart (snd (updateQuantity e iid q (s, w))) k = persistedCart w k
   \<or> persistedCart (snd (updateQuantity e iid q (s, w))) k = updatedCart (cartItems s) iid q"
  using updateQuantity_store [of e iid q s w]
  by (auto simp: persistedCart_def)

lemma updateQuantity_cartItems:
  "cartItems (fst (updateQuantity e iid q (s, w))) = cartItems s
   \<or> (\<exists>uid. cartItems (fst (updateQuantity e iid q (s, w)))
              = persistedCart (snd (updateQuantity e iid q (s, w))) uid)"
proof (cases "getUserId e")
  case None
  then show ?thesis by (simp add: updateQuantity_def Let_def)
next
  case (Some uid)
  show ?thesis
  proof (cases "axios e (PatchUserCart uid (updatedCart (cartItems s) iid q)) w")
    case (Pair r w1)
    show ?thesis
    proof (cases r)
      case None
      with Some Pair show ?thesis by (simp add: updateQuantity_def Let_def)
    next
      case (Some resp)
      with \<open>getUserId e = Some uid\<close> Pair
      have u: "updateQuantity e iid q (s, w) = fetchCartData e (s\<lparr>isLoading := True\<rparr>, w1)"
        by (simp add: updateQuantity_def Let_def)
      have "persistedCart (snd (fetchCartData e (s\<lparr>isLoading := True\<rparr>, w1))) k
            = persistedCart w1 k" for k
        by (simp add: persistedCart_def fetchCartData_store)
      with fetchCartData_cartItems [of e "s\<lparr>isLoading := True\<rparr>" w1] u
      show ?thesis by auto
    qed
  qed
qed

text \<open>
  C5: when every line of the cart on the screen and of every stored cart has a quantity of
  at least 1, then after either quantity button of a line on the screen (the two call
  sites of \<open>updateQuantity\<close>) every stored cart and the cart on the screen still hold only
  quantities of at least 1, whether the write succeeds or fails; a decrement from 1 that
  is written removes the line.
\<close>

theorem quantity_invariant:
  assumes "\<forall>x\<in>set (cartItems s). 1 \<le> quantity x"
    and "\<forall>k. \<forall>x\<in>set (persistedCart w k). 1 \<le> quantity x"
    and "item \<in> set (cartItems s)"
  shows "(\<forall>k. \<forall>x\<in>set (persistedCart (snd (pressMinus e item (s, w))) k). 1 \<le> quantity x)
    \<and> (\<forall>k. \<forall>x\<in>set (persistedCart (snd (pressPlus e item (s, w))) k). 1 \<le> quantity x)
    \<and> (\<forall>x\<in>set (cartItems (fst (pressMinus e item (s, w)))). 1 \<le> quantity x)
    \<and> (\<forall>x\<in>set (cartItems (fst (pressPlus e item (s, w)))). 1 \<le> quantity x)
    \<and> (quantity item = 1 \<and> getUserId e = Some uid \<and> dbUsers w uid = Some u
         \<and> requestOk e (PatchUserCart uid (updatedCart (cartItems s) (itemId item) 0))
        \<longrightarrow> persistedCart (snd (pressMinus e item (s, w))) uid
            = filter (\<lambda>x. itemId x \<noteq> itemId item) (cartItems s))"
proof -
  from assms(1,3) have q: "1 \<le> quantity item" by blast
  have step: "(\<forall>k. \<forall>x\<in>set (persistedCart (snd (updateQuantity e iid n (s, w))) k). 1 \<le> quantity x)
      \<and> (\<forall>x\<in>set (cartItems (fst (updateQuantity e iid n (s, w)))). 1 \<le> quantity x)"
    if n: "0 \<le> n" for iid n
  proof -
    note new = updatedCart_positive [OF assms(1) n, of iid]
    have p: "\<forall>x\<in>set (persistedCart (snd (updateQuantity e iid n (s, w))) k). 1 \<le> quantity x"
      for k
      using updateQuantity_persisted [of e iid n s w k] assms(2) new by auto
    moreover have "\<forall>x\<in>set (cartItems (fst (updateQuantity e iid n (s, w)))). 1 \<le> quantity x"
      using updateQuantity_cartItems [of e iid n s w] assms(1) p by auto
    ultimately show ?thesis by blast
  qed
  have minus: "0 \<le> quantity item - 1" and plus: "0 \<le> quantity item + 1" using q by simp_all
  have removal: "quantity item = 1 \<and> getUserId e = Some uid \<and> dbUsers w uid = Some u
         \<and> requestOk e (PatchUserCart uid (updatedCart (cartItems s) (itemId item) 0))
        \<longrightarrow> persistedCart (snd (pressMinus e item (s, w))) uid
            = filter (\<lambda>x. itemId x \<noteq> itemId item) (cartItems s)"
  proof
    assume a: "quantity item = 1 \<and> getUserId e = Some uid \<and> dbUsers w uid = Some u
         \<and> requestOk e (PatchUserCart uid (updatedCart (cartItems s) (itemId item) 0))"
    then have "persistedCart (snd (updateQuantity e (itemId item) 0 (s, w))) uid
               = updatedCart (cartItems s) (itemId item) 0"
      by (intro updateQuantity_written) simp_all
    with a show "persistedCart (snd (pressMinus e item (s, w))) uid
            = filter (\<lambda>x. itemId x \<noteq> itemId item) (cartItems s)"
      by (simp add: pressMinus_def updatedCart_def)
  qed
  from step [OF minus, of "itemId item"] step [OF plus, of "itemId item"] removal
  show ?thesis by (simp add: pressMinus_def pressPlus_def)
qed

theorem quantity_invariant_witness:
  "list_all (\<lambda>x. 1 \<le> quantity x) (cartItems exampleScreen)
   \<and> list_all (\<lambda>x. 1 \<le> quantity x) (persistedCart exampleWorld (str ''u1''))
   \<and> exampleCart ! 0 \<in> set (cartItems exampleScreen)
   \<and> list_all (\<lambda>x. 1 \<le> quantity x)
        (persistedCart (snd (pressMinus (exampleEnv vi_VN (\<lambda>r. True)) (exampleCart ! 0)
                               (exampleScreen, exampleWorld))) (str ''u1''))
   \<and> persistedCart (snd (pressMinus (exampleEnv vi_VN (\<lambda>r. True))
                            (exampleLine (str ''3'') (str ''7.000'' @ [dong]) 1)
                            (exampleScreen\<lparr>cartItems :=
                               [exampleLine (str ''3'') (str ''7.000'' @ [dong]) 1]\<rparr>,
                             exampleWorld))) (str ''u1'')
      = []"
proof -
  let ?e = "exampleEnv vi_VN (\<lambda>r. True)"
  let ?l = "exampleLine (str ''3'') (str ''7.000'' @ [dong]) 1"
  let ?s = "exampleScreen\<lparr>cartItems := [?l]\<rparr>"
  have c: "cartItems exampleScreen = exampleCart" by (simp add: exampleScreen_def)
  have h1: "\<forall>x\<in>set (cartItems exampleScreen). 1 \<le> quantity x"
    by (simp add: c exampleCart_def exampleLine_def)
  have h1': "\<forall>x\<in>set (cartItems ?s). 1 \<le> quantity x"
    by (simp add: exampleLine_def)
  have h2: "\<forall>k. \<forall>x\<in>set (persistedCart exampleWorld k). 1 \<le> quantity x"
    by (simp add: persistedCart_def exampleWorld_def exampleUser_def exampleCart_def
        exampleLine_def)
  have h3: "exampleCart ! 0 \<in> set (cartItems exampleScreen)"
    by (simp add: c exampleCart_def)
  have h3': "?l \<in> set (cartItems ?s)" by simp
  have ok: "requestOk ?e r" for r by (simp add: exampleEnv_def)
  have q: "quantity ?l = 1" by (simp add: exampleLine_def)
  from quantity_invariant [OF h1 h2 h3, of ?e]
  have 1: "list_all (\<lambda>x. 1 \<le> quantity x)
        (persistedCart (snd (pressMinus ?e (exampleCart ! 0) (exampleScreen, exampleWorld)))
           (str ''u1''))"
    by (simp add: list_all_iff)
  from quantity_invariant [OF h1' h2 h3', of ?e "str ''u1''" exampleUser]
    q example_session [of vi_VN "\<lambda>r. True"] example_world(1) ok
  have 2: "persistedCart (snd (pressMinus ?e ?l (?s, exampleWorld))) (str ''u1'') = []"
    by simp
  from h1 h2 h3 1 2 show ?thesis by (simp add: list_all_iff)
qed

section \<open>The order history\<close>

subsection \<open>Sorting by date\<close>

lemma insertBy_compareOrders:
  "insertBy compareOrders x ys = insort_key (\<lambda>ord. - orderDate ord) x ys"
  by (induction ys) (auto simp: compareOrders_def)

lemma arraySort_compareOrders:
  "arraySort compareOrders xs = sort_key (\<lambda>ord. - orderDate ord) xs"
  by (induction xs) (simp_all add: arraySort_def insertBy_compareOrders)

lemma arraySort_descending:
  assumes "i < length dat" and "j < length dat"
    and "orderDate (arraySort compareOrders dat ! j) < orderDate (arraySort compareOrders dat ! i)"
  shows "i < j"
proof (rule ccontr)
  let ?os = "arraySort compareOrders dat"
  assume "\<not> i < j"
  then have "j \<le> i" by simp
  moreover have "sorted (map (\<lambda>ord. - orderDate ord) ?os)"
    by (simp add: arraySort_compareOrders)
  moreover have "i < length (map (\<lambda>ord. - orderDate ord) ?os)"
    using assms(1) by (simp add: arraySort_compareOrders)
  ultimately have "map (\<lambda>ord. - orderDate ord) ?os ! j \<le> map (\<lambda>ord. - orderDate ord) ?os ! i"
    by (simp add: sorted_iff_nth_mono)
  then show False using assms by (simp add: arraySort_compareOrders)
qed

lemma arraySort_stable:
  "filter (\<lambda>ord. orderDate ord = t) (arraySort compareOrders dat)
   = filter (\<lambda>ord. orderDate ord = t) dat"
proof -
  have "filter (\<lambda>ord. - orderDate ord = - t) (sort_key (\<lambda>ord. - orderDate ord) dat)
        = filter (\<lambda>ord. - orderDate ord = - t) dat"
    by (rule sort_key_stable)
  then show ?thesis by (simp add: arraySort_compareOrders)
qed

lemma fetchOrders_loaded:
  assumes "getUserId e = Some uid" and "requestOk e (GetOrders uid)"
  shows "orders (fst (fetchOrders e (s, w)))
         = arraySort compareOrders (filter (\<lambda>ord. orderUserId ord = uid) (dbOrders w))"
  using assms by (simp add: fetchOrders_def axios_def Let_def)


subsection \<open>Objects as dictionaries\<close>

lemma getProp_map:
  "getProp (map (\<lambda>k. (k, f k)) ks) k = (if k \<in> set ks then Some (f k) else None)"
  by (induction ks) (auto simp: getProp_def)

lemma setProp_map:
  "setProp k v (map (\<lambda>k'. (k', f k')) ks)
   = (if k \<in> set ks then map (\<lambda>k'. (k', (f(k := v)) k')) ks
      else map (\<lambda>k'. (k', f k')) ks @ [(k, v)])"
  by (auto simp: setProp_def comp_def)

lemma getProp_absent: "k \<notin> fst ` set obj \<Longrightarrow> getProp obj k = None"
  by (simp add: getProp_def map_of_eq_None_iff)

lemma setProp_absent: "k \<notin> fst ` set obj \<Longrightarrow> setProp k v obj = obj @ [(k, v)]"
  by (simp add: setProp_def)

lemma getProp_snoc:
  assumes "k \<notin> fst ` set obj"
  shows "getProp (obj @ [(k, v)]) k = Some v"
proof -
  from assms have n: "map_of obj k = None" by (simp add: map_of_eq_None_iff)
  show ?thesis unfolding getProp_def map_of_append map_add_def n by simp
qed

lemma setProp_snoc:
  assumes "k \<notin> fst ` set obj"
  shows "setProp k v' (obj @ [(k, v)]) = obj @ [(k, v')]"
proof -
  have "map (\<lambda>(k', x). if k' = k then (k', v') else (k', x)) obj = obj"
    using assms by (induction obj) auto
  then show ?thesis by (simp add: setProp_def)
qed

lemma formatDate_not_index: "\<not> isArrayIndex (formatDate e t)"
proof
  assume "isArrayIndex (formatDate e t)"
  then have "\<forall>c\<in>set (formatDate e t). isDigit c"
    by (simp add: isArrayIndex_def list_all_iff)
  moreover have "0x2F \<in> set (formatDate e t)"
    by (simp add: formatDate_def Let_def str_def)
  ultimately have "isDigit 0x2F" by blast
  then show False by (simp add: isDigit_def)
qed

lemma objectKeys_insertion_order:
  assumes "\<forall>k\<in>set (map fst obj). \<not> isArrayIndex k"
  shows "objectKeys obj = map fst obj"
proof -
  from assms have "filter isArrayIndex (map fst obj) = []"
    by (simp add: filter_empty_conv)
  moreover from assms have "filter (\<lambda>k. \<not> isArrayIndex k) (map fst obj) = map fst obj"
    by (simp add: filter_id_conv)
  ultimately show ?thesis by (simp add: objectKeys_def)
qed

subsection \<open>Grouping by day\<close>

lemma groupStep_map:
  "groupStep e (map (\<lambda>k. (k, f k)) ks) ord
   = (let date = formatDate e (orderDate ord)
      in if date \<in> set ks then map (\<lambda>k. (k, (f(date := f date @ [ord])) k)) ks
         else map (\<lambda>k. (k, f k)) ks @ [(date, [ord])])"
proof (cases "formatDate e (orderDate ord) \<in> set ks")
  case True
  then show ?thesis by (simp add: groupStep_def Let_def getProp_map setProp_map)
next
  case False
  let ?d = "formatDate e (orderDate ord)"
  let ?g = "map (\<lambda>k. (k, f k)) ks"
  from False have a: "?d \<notin> fst ` set ?g" by (simp add: image_image)
  have 1: "getProp ?g ?d = None" by (rule getProp_absent [OF a])
  have 2: "setProp ?d [] ?g = ?g @ [(?d, [])]" by (rule setProp_absent [OF a])
  have 3: "getProp (?g @ [(?d, [])]) ?d = Some []" by (rule getProp_snoc [OF a])
  have 4: "setProp ?d [ord] (?g @ [(?d, [])]) = ?g @ [(?d, [ord])]"
    by (rule setProp_snoc [OF a])
  have "groupStep e ?g ord = ?g @ [(?d, [ord])]"
    by (simp only: groupStep_def Let_def 1 2 3 4 simp_thms if_True option.case append_Nil)
  then show ?thesis using False by (simp add: Let_def)
qed

lemma groupOrdersByDate_buckets:
  "groupOrdersByDate e ords
   = map (\<lambda>k. (k, filter (\<lambda>ord. formatDate e (orderDate ord) = k) ords))
       (rev (remdups (rev (map (\<lambda>ord. formatDate e (orderDate ord)) ords))))"
proof (induction ords rule: rev_induct)
  case Nil
  show ?case by (simp add: groupOrdersByDate_def)
next
  case (snoc x xs)
  let ?key = "\<lambda>ord. formatDate e (orderDate ord)"
  let ?ks = "rev (remdups (rev (map ?key xs)))"
  have ks: "set ?ks = ?key ` set xs" by simp
  have "groupOrdersByDate e (xs @ [x]) = groupStep e (groupOrdersByDate e xs) x"
    by (simp add: groupOrdersByDate_def)
  also have "\<dots> = groupStep e (map (\<lambda>k. (k, filter (\<lambda>ord. ?key ord = k) xs)) ?ks) x"
    by (simp only: snoc.IH)
  also have "\<dots> = map (\<lambda>k. (k, filter (\<lambda>ord. ?key ord = k) (xs @ [x])))
                     (rev (remdups (rev (map ?key (xs @ [x])))))"
  proof (cases "?key x \<in> ?key ` set xs")
    case True
    then show ?thesis
      by (subst groupStep_map) (auto simp: Let_def)
  next
    case False
    have "\<forall>y\<in>set xs. ?key y \<noteq> ?key x"
    proof
      fix y
      assume "y \<in> set xs"
      then have "?key y \<in> ?key ` set xs" by (rule imageI)
      with False show "?key y \<noteq> ?key x" by auto
    qed
    then have "filter (\<lambda>ord. ?key ord = ?key x) xs = []"
      by (simp add: filter_empty_conv)
    with False show ?thesis
      by (subst groupStep_map) (auto simp: Let_def)
  qed
  finally show ?case .
qed

lemma dateKeys_first_seen:
  "dateKeys e ords = rev (remdups (rev (map (\<lambda>ord. formatDate e (orderDate ord)) ords)))"
proof -
  let ?ks = "rev (remdups (rev (map (\<lambda>ord. formatDate e (orderDate ord)) ords)))"
  have m: "map fst (groupOrdersByDate e ords) = ?ks"
    by (simp add: groupOrdersByDate_buckets comp_def)
  have "\<forall>k\<in>set ?ks. \<not> isArrayIndex k"
    using formatDate_not_index by auto
  with m have "objectKeys (groupOrdersByDate e ords) = ?ks"
    using objectKeys_insertion_order [of "groupOrdersByDate e ords"] by simp
  then show ?thesis by (simp add: dateKeys_def)
qed

lemma bucket_of_key:
  assumes "k \<in> set (dateKeys e ords)"
  shows "getProp (groupOrdersByDate e ords) k
         = Some (filter (\<lambda>ord. formatDate e (orderDate ord) = k) ords)"
  using assms
  by (simp add: dateKeys_first_seen groupOrdersByDate_buckets
      getProp_map [of "\<lambda>k. filter (\<lambda>ord. formatDate e (orderDate ord) = k) ords"])


subsection \<open>Keys and calendar days\<close>

lemma intToString_chars:
  assumes "c \<in> set (intToString n)"
  shows "c \<noteq> 0x2F"
proof
  assume c: "c = 0x2F"
  have "\<not> isDigit (0x2F :: 16 word)" by (simp add: isDigit_def)
  then have "(0x2F :: 16 word) \<notin> set (digitsOf k)" for k
    using digitsOf_chars(1) [of "0x2F" k] by blast
  with assms c show False by (simp add: intToString_def split: if_splits)
qed

lemma digitsOf_inj:
  assumes "digitsOf m = digitsOf n"
  shows "m = n"
proof -
  from assms have "decimalValue (digitsOf m) = decimalValue (digitsOf n)" by (simp only:)
  then have "int m = int n" by (simp only: decimalValue_digitsOf)
  then show ?thesis by (simp only: of_nat_eq_iff)
qed

lemma intToString_inj:
  assumes "intToString m = intToString n"
  shows "m = n"
proof -
  have head: "hd (digitsOf k) \<noteq> 0x2D" for k
    using digitsOf_chars(5) [of "hd (digitsOf k)" k] digitsOf_nonempty [of k] by simp
  show ?thesis
  proof (cases "m < 0"; cases "n < 0")
    assume "m < 0" "n < 0"
    with assms have "digitsOf (nat (- m)) = digitsOf (nat (- n))" by (simp add: intToString_def)
    then have "nat (- m) = nat (- n)" by (rule digitsOf_inj)
    with \<open>m < 0\<close> \<open>n < 0\<close> show ?thesis by simp
  next
    assume "m < 0" "\<not> n < 0"
    with assms have "0x2D # digitsOf (nat (- m)) = digitsOf (nat n)" by (simp add: intToString_def)
    then have "hd (digitsOf (nat n)) = hd (0x2D # digitsOf (nat (- m)))" by (simp only:)
    then have "hd (digitsOf (nat n)) = 0x2D" by (simp only: list.sel)
    with head show ?thesis by simp
  next
    assume "\<not> m < 0" "n < 0"
    with assms have "digitsOf (nat m) = 0x2D # digitsOf (nat (- n))" by (simp add: intToString_def)
    then have "hd (digitsOf (nat m)) = 0x2D" by simp
    with head show ?thesis by simp
  next
    assume "\<not> m < 0" "\<not> n < 0"
    with assms have "digitsOf (nat m) = digitsOf (nat n)" by (simp add: intToString_def)
    then have "nat m = nat n" by (rule digitsOf_inj)
    with \<open>\<not> m < 0\<close> \<open>\<not> n < 0\<close> show ?thesis by simp
  qed
qed

lemma split_at_separator:
  assumes "c \<notin> set a" and "c \<notin> set a'" and "a @ c # r = a' @ c # r'"
  shows "a = a' \<and> r = r'"
  using assms
proof (induction a arbitrary: a')
  case Nil
  then show ?case by (cases a') auto
next
  case (Cons x a)
  then show ?case by (cases a') auto
qed

lemma formatDate_eq_iff:
  "formatDate e t = formatDate e t' \<longleftrightarrow> localTime e t = localTime e t'"
proof
  assume eq: "formatDate e t = formatDate e t'"
  let ?d = "localTime e t" and ?d' = "localTime e t'"
  have slash: "0x2F \<notin> set (intToString k)" for k
    using intToString_chars by blast
  have sl: "str ''/'' = [0x2F]" by (simp add: str_def)
  from eq have 1: "intToString (getDate ?d) @ 0x2F # (intToString (getMonth ?d + 1) @ 0x2F
                     # intToString (getFullYear ?d))
                 = intToString (getDate ?d') @ 0x2F # (intToString (getMonth ?d' + 1) @ 0x2F
                     # intToString (getFullYear ?d'))"
    unfolding formatDate_def Let_def sl by (simp only: append.simps)
  from split_at_separator [OF slash slash 1]
  have day: "intToString (getDate ?d) = intToString (getDate ?d')"
    and 2: "intToString (getMonth ?d + 1) @ 0x2F # intToString (getFullYear ?d)
            = intToString (getMonth ?d' + 1) @ 0x2F # intToString (getFullYear ?d')"
    by simp_all
  from split_at_separator [OF slash slash 2]
  have month: "intToString (getMonth ?d + 1) = intToString (getMonth ?d' + 1)"
    and year: "intToString (getFullYear ?d) = intToString (getFullYear ?d')"
    by simp_all
  from intToString_inj [OF day] intToString_inj [OF month] intToString_inj [OF year]
  have "getDate ?d = getDate ?d'" and "getMonth ?d = getMonth ?d'"
    and "getFullYear ?d = getFullYear ?d'"
    by simp_all
  then show "?d = ?d'" by (simp add: calendar.equality)
next
  assume "localTime e t = localTime e t'"
  then show "formatDate e t = formatDate e t'" by (simp add: formatDate_def)
qed

lemma bucket_of_day:
  assumes "ord \<in> set ords"
  shows "getProp (groupOrdersByDate e ords) (formatDate e (orderDate ord))
         = Some (filter (\<lambda>x. localTime e (orderDate x) = localTime e (orderDate ord)) ords)"
proof -
  from assms have "formatDate e (orderDate ord) \<in> set (dateKeys e ords)"
    by (simp add: dateKeys_first_seen)
  from bucket_of_key [OF this] show ?thesis by (simp add: formatDate_eq_iff)
qed

text \<open>
  C8: \<open>fetchOrders\<close> stores the fetched orders sorted by \<open>orderDate\<close>, newest first: the
  result is a permutation of the fetched orders, an order with a later date stands before
  one with an earlier date, and orders of equal date keep their fetch order.  Two time
  values get the same key from \<open>formatDate\<close> exactly when their local day of the month,
  month and year agree, so a key stands for one local calendar day.  The keys of
  \<open>groupOrdersByDate\<close> are distinct and come in first-seen order of the days in its
  input, and the bucket of the day of an order holds the orders of that local calendar day,
  in their input order; for three orders of days D2, D1, D2 the keys are D2, D1, the bucket
  of D2 holds the first and the third order and the bucket of D1 the second.
\<close>

theorem orders_sorted_and_grouped:
  "(getUserId e = Some uid \<and> requestOk e (GetOrders uid)
      \<longrightarrow> orders (fst (fetchOrders e (s, w)))
          = arraySort compareOrders (filter (\<lambda>ord. orderUserId ord = uid) (dbOrders w)))
   \<and> mset (arraySort compareOrders dat) = mset dat
   \<and> (\<forall>i j. i < length dat \<and> j < length dat
          \<and> orderDate (arraySort compareOrders dat ! j)
              < orderDate (arraySort compareOrders dat ! i)
        \<longrightarrow> i < j)
   \<and> (\<forall>t. filter (\<lambda>ord. orderDate ord = t) (arraySort compareOrders dat)
           = filter (\<lambda>ord. orderDate ord = t) dat)
   \<and> ((formatDate e t = formatDate e t')
        = (getDate (localTime e t) = getDate (localTime e t')
           \<and> getMonth (localTime e t) = getMonth (localTime e t')
           \<and> getFullYear (localTime e t) = getFullYear (localTime e t')))
   \<and> ((localTime e t = localTime e t') = (formatDate e t = formatDate e t'))
   \<and> dateKeys e ords = rev (remdups (rev (map (\<lambda>ord. formatDate e (orderDate ord)) ords)))
   \<and> distinct (dateKeys e ords)
   \<and> (\<forall>ord\<in>set ords.
         getProp (groupOrdersByDate e ords) (formatDate e (orderDate ord))
         = Some (filter (\<lambda>x. localTime e (orderDate x) = localTime e (orderDate ord)) ords))
   \<and> (localTime e (orderDate o3) = localTime e (orderDate o1)
        \<and> localTime e (orderDate o2) \<noteq> localTime e (orderDate o1)
      \<longrightarrow> dateKeys e [o1, o2, o3] = [formatDate e (orderDate o1), formatDate e (orderDate o2)]
          \<and> getProp (groupOrdersByDate e [o1, o2, o3]) (formatDate e (orderDate o1))
              = Some [o1, o3]
          \<and> getProp (groupOrdersByDate e [o1, o2, o3]) (formatDate e (orderDate o2))
              = Some [o2])"
proof -
  have fetch: "getUserId e = Some uid \<and> requestOk e (GetOrders uid)
      \<longrightarrow> orders (fst (fetchOrders e (s, w)))
          = arraySort compareOrders (filter (\<lambda>ord. orderUserId ord = uid) (dbOrders w))"
    using fetchOrders_loaded by blast
  have perm: "mset (arraySort compareOrders dat) = mset dat"
    by (simp add: arraySort_compareOrders)
  have desc: "\<forall>i j. i < length dat \<and> j < length dat
          \<and> orderDate (arraySort compareOrders dat ! j)
              < orderDate (arraySort compareOrders dat ! i)
        \<longrightarrow> i < j"
    using arraySort_descending by blast
  have stable: "\<forall>t. filter (\<lambda>ord. orderDate ord = t) (arraySort compareOrders dat)
           = filter (\<lambda>ord. orderDate ord = t) dat"
    using arraySort_stable by blast
  have day: "(localTime e t = localTime e t') = (formatDate e t = formatDate e t')"
    by (simp only: formatDate_eq_iff)
  have fields: "(formatDate e t = formatDate e t')
        = (getDate (localTime e t) = getDate (localTime e t')
           \<and> getMonth (localTime e t) = getMonth (localTime e t')
           \<and> getFullYear (localTime e t) = getFullYear (localTime e t'))"
    unfolding formatDate_eq_iff by (auto intro: calendar.equality)
  have keys: "dateKeys e ords
              = rev (remdups (rev (map (\<lambda>ord. formatDate e (orderDate ord)) ords)))"
    by (rule dateKeys_first_seen)
  have dist: "distinct (dateKeys e ords)"
    by (simp add: dateKeys_first_seen)
  have buckets: "\<forall>ord\<in>set ords.
         getProp (groupOrdersByDate e ords) (formatDate e (orderDate ord))
         = Some (filter (\<lambda>x. localTime e (orderDate x) = localTime e (orderDate ord)) ords)"
    using bucket_of_day by blast
  have three: "localTime e (orderDate o3) = localTime e (orderDate o1)
        \<and> localTime e (orderDate o2) \<noteq> localTime e (orderDate o1)
      \<longrightarrow> dateKeys e [o1, o2, o3] = [formatDate e (orderDate o1), formatDate e (orderDate o2)]
          \<and> getProp (groupOrdersByDate e [o1, o2, o3]) (formatDate e (orderDate o1))
              = Some [o1, o3]
          \<and> getProp (groupOrdersByDate e [o1, o2, o3]) (formatDate e (orderDate o2))
              = Some [o2]"
  proof
    assume a: "localTime e (orderDate o3) = localTime e (orderDate o1)
        \<and> localTime e (orderDate o2) \<noteq> localTime e (orderDate o1)"
    then have f: "formatDate e (orderDate o3) = formatDate e (orderDate o1)"
      "formatDate e (orderDate o2) \<noteq> formatDate e (orderDate o1)"
      by (simp_all add: formatDate_eq_iff)
    then have k: "dateKeys e [o1, o2, o3]
                  = [formatDate e (orderDate o1), formatDate e (orderDate o2)]"
      by (auto simp: dateKeys_first_seen)
    have "o1 \<in> set [o1, o2, o3]" and "o2 \<in> set [o1, o2, o3]" by simp_all
    from bucket_of_day [OF this(1), of e] bucket_of_day [OF this(2), of e] a k
    show "dateKeys e [o1, o2, o3] = [formatDate e (orderDate o1), formatDate e (orderDate o2)]
          \<and> getProp (groupOrdersByDate e [o1, o2, o3]) (formatDate e (orderDate o1))
              = Some [o1, o3]
          \<and> getProp (groupOrdersByDate e [o1, o2, o3]) (formatDate e (orderDate o2))
              = Some [o2]"
      by auto
  qed
  show ?thesis
    by (rule conjI [OF fetch conjI [OF perm conjI [OF desc conjI [OF stable
        conjI [OF fields conjI [OF day conjI [OF keys conjI [OF dist
        conjI [OF buckets three]]]]]]]]])
qed

lemma example_localTime:
  "exampleLocalTime 1709373600000 = \<lparr>getDate = 2, getMonth = 2, getFullYear = 2024\<rparr>"
  "exampleLocalTime 1709366400000 = \<lparr>getDate = 2, getMonth = 2, getFullYear = 2024\<rparr>"
  "exampleLocalTime 1709294400000 = \<lparr>getDate = 1, getMonth = 2, getFullYear = 2024\<rparr>"
  "exampleLocalTime 1706864400000 = \<lparr>getDate = 2, getMonth = 1, getFullYear = 2024\<rparr>"
  "exampleLocalTime 1677747600000 = \<lparr>getDate = 2, getMonth = 2, getFullYear = 2023\<rparr>"
  by (simp_all add: exampleLocalTime_def marchMonth_def dayOfMarchYear_def marchYear_def
      yearOfEra_def dayOfEra_def)

lemma example_formatDate:
  "formatDate (exampleEnv loc ok) 1709373600000 = str ''2/3/2024''"
  "formatDate (exampleEnv loc ok) 1709366400000 = str ''2/3/2024''"
  "formatDate (exampleEnv loc ok) 1709294400000 = str ''1/3/2024''"
  "formatDate (exampleEnv loc ok) 1706864400000 = str ''2/2/2024''"
  "formatDate (exampleEnv loc ok) 1677747600000 = str ''2/3/2023''"
  by (simp_all add: formatDate_def exampleEnv_def example_localTime intToString_def
      digitsOf.simps digitChar_def str_def)

theorem orders_sorted_and_grouped_witness:
  "getUserId (exampleEnv vi_VN (\<lambda>r. True)) = Some (str ''u1'')
   \<and> requestOk (exampleEnv vi_VN (\<lambda>r. True)) (GetOrders (str ''u1''))
   \<and> orders (fst (fetchOrders (exampleEnv vi_VN (\<lambda>r. True))
        (exampleNotifications,
         exampleWorld\<lparr>dbOrders := [exampleOrder (str ''e'') 1677747600000,
                                   exampleOrder (str ''a'') 1709373600000,
                                   exampleOrder (str ''d'') 1706864400000,
                                   exampleOrder (str ''b'') 1709294400000,
                                   exampleOrder (str ''f'') 1709373600000,
                                   exampleOrder (str ''c'') 1709366400000]\<rparr>)))
      = [exampleOrder (str ''a'') 1709373600000, exampleOrder (str ''f'') 1709373600000,
         exampleOrder (str ''c'') 1709366400000, exampleOrder (str ''b'') 1709294400000,
         exampleOrder (str ''d'') 1706864400000, exampleOrder (str ''e'') 1677747600000]
   \<and> orderDate (arraySort compareOrders
                   [exampleOrder (str ''e'') 1677747600000, exampleOrder (str ''a'') 1709373600000,
                    exampleOrder (str ''d'') 1706864400000, exampleOrder (str ''b'') 1709294400000,
                    exampleOrder (str ''f'') 1709373600000, exampleOrder (str ''c'') 1709366400000]
                 ! 5)
       < orderDate (arraySort compareOrders
                   [exampleOrder (str ''e'') 1677747600000, exampleOrder (str ''a'') 1709373600000,
                    exampleOrder (str ''d'') 1706864400000, exampleOrder (str ''b'') 1709294400000,
                    exampleOrder (str ''f'') 1709373600000, exampleOrder (str ''c'') 1709366400000]
                 ! 0)
   \<and> filter (\<lambda>ord. orderDate ord = 1709373600000)
        (arraySort compareOrders
           [exampleOrder (str ''e'') 1677747600000, exampleOrder (str ''a'') 1709373600000,
            exampleOrder (str ''d'') 1706864400000, exampleOrder (str ''b'') 1709294400000,
            exampleOrder (str ''f'') 1709373600000, exampleOrder (str ''c'') 1709366400000])
      = [exampleOrder (str ''a'') 1709373600000, exampleOrder (str ''f'') 1709373600000]
   \<and> formatDate (exampleEnv vi_VN (\<lambda>r. True)) 1709373600000
       = formatDate (exampleEnv vi_VN (\<lambda>r. True)) 1709366400000
   \<and> formatDate (exampleEnv vi_VN (\<lambda>r. True)) 1709373600000
       \<noteq> formatDate (exampleEnv vi_VN (\<lambda>r. True)) 1709294400000
   \<and> formatDate (exampleEnv vi_VN (\<lambda>r. True)) 1709373600000
       \<noteq> formatDate (exampleEnv vi_VN (\<lambda>r. True)) 1706864400000
   \<and> formatDate (exampleEnv vi_VN (\<lambda>r. True)) 1709373600000
       \<noteq> formatDate (exampleEnv vi_VN (\<lambda>r. True)) 1677747600000
   \<and> dateKeys (exampleEnv vi_VN (\<lambda>r. True))
        [exampleOrder (str ''a'') 1709373600000, exampleOrder (str ''f'') 1709373600000,
         exampleOrder (str ''c'') 1709366400000, exampleOrder (str ''b'') 1709294400000,
         exampleOrder (str ''d'') 1706864400000, exampleOrder (str ''e'') 1677747600000]
      = [str ''2/3/2024'', str ''1/3/2024'', str ''2/2/2024'', str ''2/3/2023'']
   \<and> exampleOrder (str ''c'') 1709366400000
       \<in> set [exampleOrder (str ''a'') 1709373600000, exampleOrder (str ''f'') 1709373600000,
              exampleOrder (str ''c'') 1709366400000, exampleOrder (str ''b'') 1709294400000,
              exampleOrder (str ''d'') 1706864400000, exampleOrder (str ''e'') 1677747600000]
   \<and> getProp (groupOrdersByDate (exampleEnv vi_VN (\<lambda>r. True))
        [exampleOrder (str ''a'') 1709373600000, exampleOrder (str ''f'') 1709373600000,
         exampleOrder (str ''c'') 1709366400000, exampleOrder (str ''b'') 1709294400000,
         exampleOrder (str ''d'') 1706864400000, exampleOrder (str ''e'') 1677747600000])
        (str ''2/3/2024'')
      = Some [exampleOrder (str ''a'') 1709373600000, exampleOrder (str ''f'') 1709373600000,
              exampleOrder (str ''c'') 1709366400000]
   \<and> localTime (exampleEnv vi_VN (\<lambda>r. True)) (orderDate (exampleOrder (str ''c'') 1709366400000))
       = localTime (exampleEnv vi_VN (\<lambda>r. True)) (orderDate (exampleOrder (str ''a'') 1709373600000))
   \<and> localTime (exampleEnv vi_VN (\<lambda>r. True)) (orderDate (exampleOrder (str ''b'') 1709294400000))
       \<noteq> localTime (exampleEnv vi_VN (\<lambda>r. True)) (orderDate (exampleOrder (str ''a'') 1709373600000))
   \<and> dateKeys (exampleEnv vi_VN (\<lambda>r. True))
        [exampleOrder (str ''a'') 1709373600000, exampleOrder (str ''b'') 1709294400000,
         exampleOrder (str ''c'') 1709366400000]
      = [str ''2/3/2024'', str ''1/3/2024'']
   \<and> getProp (groupOrdersByDate (exampleEnv vi_VN (\<lambda>r. True))
        [exampleOrder (str ''a'') 1709373600000, exampleOrder (str ''b'') 1709294400000,
         exampleOrder (str ''c'') 1709366400000]) (str ''2/3/2024'')
      = Some [exampleOrder (str ''a'') 1709373600000, exampleOrder (str ''c'') 1709366400000]
   \<and> getProp (groupOrdersByDate (exampleEnv vi_VN (\<lambda>r. True))
        [exampleOrder (str ''a'') 1709373600000, exampleOrder (str ''b'') 1709294400000,
         exampleOrder (str ''c'') 1709366400000]) (str ''1/3/2024'')
      = Some [exampleOrder (str ''b'') 1709294400000]"
proof -
  let ?e = "exampleEnv vi_VN (\<lambda>r. True)"
  let ?a = "exampleOrder (str ''a'') 1709373600000"
  let ?b = "exampleOrder (str ''b'') 1709294400000"
  let ?c = "exampleOrder (str ''c'') 1709366400000"
  let ?d = "exampleOrder (str ''d'') 1706864400000"
  let ?x = "exampleOrder (str ''e'') 1677747600000"
  let ?f = "exampleOrder (str ''f'') 1709373600000"
  let ?w = "exampleWorld\<lparr>dbOrders := [?x, ?a, ?d, ?b, ?f, ?c]\<rparr>"
  have ok: "requestOk ?e (GetOrders (str ''u1''))" by (simp add: exampleEnv_def)
  have lt: "localTime ?e = exampleLocalTime" by (simp add: exampleEnv_def)
  have dates: "orderDate (exampleOrder i t) = t" for i t
    by (simp add: exampleOrder_def)
  have users: "orderUserId (exampleOrder i t) = str ''u1''" for i t
    by (simp add: exampleOrder_def)
  have srt: "arraySort compareOrders [?x, ?a, ?d, ?b, ?f, ?c] = [?a, ?f, ?c, ?b, ?d, ?x]"
    by (simp add: arraySort_def compareOrders_def dates)
  have later: "orderDate (arraySort compareOrders [?x, ?a, ?d, ?b, ?f, ?c] ! 5)
               < orderDate (arraySort compareOrders [?x, ?a, ?d, ?b, ?f, ?c] ! 0)"
    by (simp add: srt dates)
  have days: "localTime ?e (orderDate ?c) = localTime ?e (orderDate ?a)"
    "localTime ?e (orderDate ?b) \<noteq> localTime ?e (orderDate ?a)"
    by (simp_all add: lt dates example_localTime)
  have mem: "?c \<in> set [?a, ?f, ?c, ?b, ?d, ?x]" by simp
  note inst = orders_sorted_and_grouped
    [of ?e "str ''u1''" exampleNotifications ?w "[?x, ?a, ?d, ?b, ?f, ?c]"
        1709373600000 _ "[?a, ?f, ?c, ?b, ?d, ?x]" ?c ?a ?b]
  from inst example_session [of vi_VN "\<lambda>r. True"] ok
  have 1: "orders (fst (fetchOrders ?e (exampleNotifications, ?w))) = [?a, ?f, ?c, ?b, ?d, ?x]"
    by (simp add: users srt)
  from inst have "\<forall>t. filter (\<lambda>ord. orderDate ord = t)
                       (arraySort compareOrders [?x, ?a, ?d, ?b, ?f, ?c])
                     = filter (\<lambda>ord. orderDate ord = t) [?x, ?a, ?d, ?b, ?f, ?c]"
    by blast
  then have 2: "filter (\<lambda>ord. orderDate ord = 1709373600000)
                  (arraySort compareOrders [?x, ?a, ?d, ?b, ?f, ?c]) = [?a, ?f]"
    by (simp add: dates)
  have key: "(formatDate ?e 1709373600000 = formatDate ?e t')
             = (localTime ?e 1709373600000 = localTime ?e t')" for t'
    using orders_sorted_and_grouped [of ?e _ _ _ _ 1709373600000 t'] by blast
  have 3: "formatDate ?e 1709373600000 = formatDate ?e 1709366400000"
    "formatDate ?e 1709373600000 \<noteq> formatDate ?e 1709294400000"
    "formatDate ?e 1709373600000 \<noteq> formatDate ?e 1706864400000"
    "formatDate ?e 1709373600000 \<noteq> formatDate ?e 1677747600000"
    by (simp_all only: key lt example_localTime) simp_all
  from inst have k: "dateKeys ?e [?a, ?f, ?c, ?b, ?d, ?x]
                     = [str ''2/3/2024'', str ''1/3/2024'', str ''2/2/2024'', str ''2/3/2023'']"
    by (simp add: dates example_formatDate str_def)
  from inst have "\<forall>ord\<in>set [?a, ?f, ?c, ?b, ?d, ?x].
         getProp (groupOrdersByDate ?e [?a, ?f, ?c, ?b, ?d, ?x]) (formatDate ?e (orderDate ord))
         = Some (filter (\<lambda>x. localTime ?e (orderDate x) = localTime ?e (orderDate ord))
                   [?a, ?f, ?c, ?b, ?d, ?x])"
    by blast
  from this [rule_format, OF mem]
  have 4: "getProp (groupOrdersByDate ?e [?a, ?f, ?c, ?b, ?d, ?x]) (str ''2/3/2024'')
           = Some [?a, ?f, ?c]"
    by (simp add: dates lt example_localTime example_formatDate)
  from inst days have 5: "dateKeys ?e [?a, ?b, ?c] = [str ''2/3/2024'', str ''1/3/2024'']
    \<and> getProp (groupOrdersByDate ?e [?a, ?b, ?c]) (str ''2/3/2024'') = Some [?a, ?c]
    \<and> getProp (groupOrdersByDate ?e [?a, ?b, ?c]) (str ''1/3/2024'') = Some [?b]"
    by (simp add: dates example_formatDate)
  from 1 later 2 3 k mem 4 days 5 example_session [of vi_VN "\<lambda>r. True"] ok show ?thesis
    by (simp only: simp_thms)
qed

end
